theory Spec2Isabelle
  imports Main "HOL-Library.AList"
begin

section \<open>JavaScript values\<close>

text \<open>
  An optional string is \<open>string option\<close>, \<open>None\<close> being \<open>undefined\<close>. JavaScript's
  conditionals test truthiness: \<open>undefined\<close> and the empty string are falsy.
\<close>

definition truthy :: "string option \<Rightarrow> bool" where
  "truthy v = (case v of None \<Rightarrow> False | Some s \<Rightarrow> s \<noteq> [])"

text \<open>\<^verbatim>\<open>v || ''\<close> on an optional string.\<close>

definition orEmpty :: "string option \<Rightarrow> string" where
  "orEmpty v = (case v of None \<Rightarrow> [] | Some s \<Rightarrow> (if s \<noteq> [] then s else []))"

section \<open>The ethers library\<close>

text \<open>
  The functions of ethers 5 that the service calls, as the library defines them. A
  \<open>BigNumber\<close> object holds a hexadecimal string, and \<open>toHexString\<close> returns that string
  as it is. A \<open>BigNumberish\<close> is what the code hands to \<^verbatim>\<open>BigNumber.from\<close>: nothing at
  all, a JavaScript number (an integer here), a string, or a \<open>BigNumber\<close>.
\<close>

datatype BigNumber = BigNumber (toHexString: string)

datatype BigNumberish = JsUndefined | JsNumber int | JsString string | JsBigNumber BigNumber

definition truthyNum :: "BigNumberish \<Rightarrow> bool" where
  "truthyNum v = (case v of JsUndefined \<Rightarrow> False | JsNumber n \<Rightarrow> n \<noteq> 0
                  | JsString s \<Rightarrow> s \<noteq> [] | JsBigNumber b \<Rightarrow> True)"

text \<open>Character classes of the regular expressions: \<open>[0-9]\<close>, \<open>[a-f]\<close> and \<open>[0-9a-fA-F]\<close>.\<close>

definition isDigit :: "char \<Rightarrow> bool" where
  "isDigit c = (48 \<le> (of_char c :: nat) \<and> (of_char c :: nat) \<le> 57)"

definition isLowerHexLetter :: "char \<Rightarrow> bool" where
  "isLowerHexLetter c = (97 \<le> (of_char c :: nat) \<and> (of_char c :: nat) \<le> 102)"

definition isUpperHexLetter :: "char \<Rightarrow> bool" where
  "isUpperHexLetter c = (65 \<le> (of_char c :: nat) \<and> (of_char c :: nat) \<le> 70)"

definition isHexDigit :: "char \<Rightarrow> bool" where
  "isHexDigit c = (isDigit c \<or> isLowerHexLetter c \<or> isUpperHexLetter c)"

text \<open>
  The value of a digit in a base, and the number a string of digits denotes, as the
  big-integer library reads it; a character that is no digit of the base makes it throw.
\<close>

definition digitValue :: "nat \<Rightarrow> char \<Rightarrow> nat option" where
  "digitValue base c =
     (let k = (of_char c :: nat);
          d = (if 48 \<le> k \<and> k \<le> 57 then Some (k - 48)
               else if 97 \<le> k \<and> k \<le> 102 then Some (k - 87)
               else if 65 \<le> k \<and> k \<le> 70 then Some (k - 55)
               else None)
      in case d of None \<Rightarrow> None | Some v \<Rightarrow> if v < base then Some v else None)"

fun natOfDigits :: "nat \<Rightarrow> string \<Rightarrow> nat \<Rightarrow> nat option" where
  "natOfDigits base [] acc = Some acc"
| "natOfDigits base (c # cs) acc =
     (case digitValue base c of
        None \<Rightarrow> None
      | Some d \<Rightarrow> natOfDigits base cs (base * acc + d))"

text \<open>\<^verbatim>\<open>toString(16)\<close> of a big integer: lower-case digits, no leading zero, a minus sign.\<close>

definition hexDigit :: "nat \<Rightarrow> char" where
  "hexDigit d = ''0123456789abcdef'' ! d"

fun hexOfNat :: "nat \<Rightarrow> string" where
  "hexOfNat n = (if n < 16 then [hexDigit n] else hexOfNat (n div 16) @ [hexDigit (n mod 16)])"

declare hexOfNat.simps [simp del]

definition BN_toString16 :: "int \<Rightarrow> string" where
  "BN_toString16 n = (if n < 0 then ''-'' @ hexOfNat (nat (- n)) else hexOfNat (nat n))"

text \<open>A big integer from a decimal string that matched \<^verbatim>\<open>/^-?[0-9]+$/\<close>.\<close>

definition BN_ofDecimal :: "string \<Rightarrow> int option" where
  "BN_ofDecimal s =
     (if take 1 s = ''-'' then map_option (\<lambda>n. - int n) (natOfDigits 10 (drop 1 s) 0)
      else map_option int (natOfDigits 10 s 0))"

text \<open>
  \<open>toHex\<close> on a string without sign: the prefix \<open>0x\<close> is added if missing, an odd number of
  characters is made even with a zero after the prefix, and leading pairs of zeros
  are removed while more than one pair is left. The letters of the digits stay as they
  are written.
\<close>

function trimZeroPairs :: "string \<Rightarrow> string" where
  "trimZeroPairs v =
     (if 4 < length v \<and> take 4 v = ''0x00'' then trimZeroPairs (''0x'' @ drop 4 v) else v)"
  by pat_completeness auto
termination
  by (relation "measure length") auto

declare trimZeroPairs.simps [simp del]

definition toHexUnsigned :: "string \<Rightarrow> string" where
  "toHexUnsigned v =
     (let v1 = (if take 2 v \<noteq> ''0x'' then ''0x'' @ v else v) in
      if v1 = ''0x'' then ''0x00''
      else trimZeroPairs (if odd (length v1) then ''0x0'' @ drop 2 v1 else v1))"

text \<open>\<open>toHex\<close> on a string: a second minus sign throws, and minus zero is zero.\<close>

definition toHex :: "string \<Rightarrow> string option" where
  "toHex v =
     (if take 1 v = ''-'' then
        (if take 1 (drop 1 v) = ''-'' then None
         else (let h = toHexUnsigned (drop 1 v) in
               if h = ''0x00'' then Some h else Some (''-'' @ h)))
      else Some (toHexUnsigned v))"

text \<open>
  The two regular expressions of \<^verbatim>\<open>BigNumber.from\<close>: \<^verbatim>\<open>/^-?0x[0-9a-f]+$/i\<close>, which
  ignores case also in the prefix, and \<^verbatim>\<open>/^-?[0-9]+$/\<close>.
\<close>

definition unsignedPart :: "string \<Rightarrow> string" where
  "unsignedPart s = (if take 1 s = ''-'' then drop 1 s else s)"

definition isHexNumberString :: "string \<Rightarrow> bool" where
  "isHexNumberString s =
     ((take 2 (unsignedPart s) = ''0x'' \<or> take 2 (unsignedPart s) = ''0X'')
      \<and> drop 2 (unsignedPart s) \<noteq> [] \<and> list_all isHexDigit (drop 2 (unsignedPart s)))"

definition isDecimalString :: "string \<Rightarrow> bool" where
  "isDecimalString s = (unsignedPart s \<noteq> [] \<and> list_all isDigit (unsignedPart s))"

text \<open>\<^verbatim>\<open>Number.MAX_SAFE_INTEGER\<close>, written \<^verbatim>\<open>0x1fffffffffffff\<close> in the library.\<close>

definition MAX_SAFE :: int where
  "MAX_SAFE = 9007199254740991"

text \<open>
  \<^verbatim>\<open>BigNumber.from\<close>, \<open>None\<close> when it throws. A \<open>BigNumber\<close> is returned as it is. A string
  is a hexadecimal or a decimal number or is refused. A number at or beyond
  \<open>MAX_SAFE\<close> overflows; any other goes through its decimal string, which denotes the
  number itself.
\<close>

definition BigNumber_from :: "BigNumberish \<Rightarrow> BigNumber option" where
  "BigNumber_from v =
     (case v of
        JsBigNumber b \<Rightarrow> Some b
      | JsString s \<Rightarrow>
          (if isHexNumberString s then map_option BigNumber (toHex s)
           else if isDecimalString s then
             (case BN_ofDecimal s of
                None \<Rightarrow> None
              | Some n \<Rightarrow> map_option BigNumber (toHex (BN_toString16 n)))
           else None)
      | JsNumber n \<Rightarrow>
          (if MAX_SAFE \<le> n \<or> n \<le> - MAX_SAFE then None
           else map_option BigNumber (toHex (BN_toString16 n)))
      | JsUndefined \<Rightarrow> None)"

text \<open>
  \<open>toBN\<close>: the integer of a \<open>BigNumberish\<close>, read from the hexadecimal string of
  \<^verbatim>\<open>BigNumber.from(value)\<close>. \<^verbatim>\<open>a.gt(b)\<close> compares \<open>toBN\<close> of the two.
\<close>

definition toBN :: "BigNumberish \<Rightarrow> int option" where
  "toBN v =
     (case BigNumber_from v of
        None \<Rightarrow> None
      | Some b \<Rightarrow>
          (if take 1 (toHexString b) = ''-''
           then map_option (\<lambda>n. - int n) (natOfDigits 16 (drop 3 (toHexString b)) 0)
           else map_option int (natOfDigits 16 (drop 2 (toHexString b)) 0)))"

definition gt :: "BigNumber \<Rightarrow> BigNumberish \<Rightarrow> bool option" where
  "gt a other =
     (case toBN (JsBigNumber a) of
        None \<Rightarrow> None
      | Some x \<Rightarrow> (case toBN other of None \<Rightarrow> None | Some y \<Rightarrow> Some (y < x)))"

text \<open>
  \<^verbatim>\<open>ethers.utils.hexConcat\<close> on strings: each item goes through \<open>hexlify\<close>, which
  refuses what is not \<^verbatim>\<open>/^0x[0-9A-Fa-f]*$/\<close> or has an odd number of digits, and writes
  the rest in lower case.
\<close>

definition toLowerCase :: "string \<Rightarrow> string" where
  "toLowerCase s =
     map (\<lambda>c. if 65 \<le> (of_char c :: nat) \<and> (of_char c :: nat) \<le> 90
               then char_of ((of_char c :: nat) + 32) else c) s"

definition hexlify :: "string \<Rightarrow> string option" where
  "hexlify s =
     (if take 2 s = ''0x'' \<and> list_all isHexDigit (drop 2 s)
      then (if odd (length s) then None else Some (toLowerCase s))
      else None)"

fun hexConcatOnto :: "string \<Rightarrow> string list \<Rightarrow> string option" where
  "hexConcatOnto result [] = Some result"
| "hexConcatOnto result (item # items) =
     (case hexlify item of
        None \<Rightarrow> None
      | Some h \<Rightarrow> hexConcatOnto (result @ drop 2 h) items)"

definition hexConcat :: "string list \<Rightarrow> string option" where
  "hexConcat items = hexConcatOnto ''0x'' items"

text \<open>\<^verbatim>\<open>ethers.constants.AddressZero\<close>: \<open>0x\<close> and forty zeros.\<close>

definition AddressZero :: string where
  "AddressZero = ''0x0000000000000000000000000000000000000000''"

section \<open>User operations and transaction requests\<close>

record UserOperation =
  sender :: string
  nonce :: BigNumberish
  initCode :: string
  callData :: string
  callGasLimit :: BigNumberish
  verificationGasLimit :: BigNumberish
  preVerificationGas :: BigNumberish
  maxFeePerGas :: BigNumberish
  maxPriorityFeePerGas :: BigNumberish
  paymasterAndData :: string
  signature :: string

text \<open>The fields of \<open>EthersTransactionRequest\<close> that the code reads.\<close>

record EthersTransactionRequest =
  tx_to :: string
  tx_data :: "string option"
  tx_value :: BigNumberish
  tx_gasLimit :: BigNumberish
  tx_maxFeePerGas :: BigNumberish
  tx_maxPriorityFeePerGas :: BigNumberish

text \<open>The object literal passed to \<open>createUnsignedUserOpWithContext\<close>.\<close>

record TransactionDetailsForUserOp =
  det_target :: string
  det_data :: string
  det_value :: "BigNumber option"
  det_gasLimit :: BigNumberish
  det_maxFeePerGas :: BigNumberish
  det_maxPriorityFeePerGas :: BigNumberish

text \<open>What \<open>estimateUserOpGas\<close> resolves to.\<close>

record GasParameters =
  est_callGasLimit :: BigNumberish
  est_verificationGasLimit :: BigNumberish
  est_preVerificationGas :: BigNumberish

section \<open>The transactions slice (redux-slices/transactions.ts)\<close>

record TransactionState =
  transactionRequest :: "EthersTransactionRequest option"
  transactionsRequest :: "EthersTransactionRequest list option"
  modifiedTransactionRequest :: "EthersTransactionRequest option"
  requestOrigin :: "string option"
  userOperationRequest :: "UserOperation option"
  unsignedUserOperation :: "UserOperation option"

definition initialState :: TransactionState where
  "initialState = \<lparr> transactionRequest = None, transactionsRequest = None,
     modifiedTransactionRequest = None, requestOrigin = None,
     userOperationRequest = None, unsignedUserOperation = None \<rparr>"

definition sendTransactionRequest ::
  "TransactionState \<Rightarrow> EthersTransactionRequest \<Rightarrow> string \<Rightarrow> TransactionState" where
  "sendTransactionRequest state request origin =
     state\<lparr> transactionRequest := Some request, requestOrigin := Some origin \<rparr>"

definition sendTransactionsRequest ::
  "TransactionState \<Rightarrow> EthersTransactionRequest list \<Rightarrow> string \<Rightarrow> TransactionState" where
  "sendTransactionsRequest state requests origin =
     state\<lparr> transactionsRequest := Some requests, requestOrigin := Some origin \<rparr>"

definition setModifyTransactionRequest ::
  "TransactionState \<Rightarrow> EthersTransactionRequest option \<Rightarrow> TransactionState" where
  "setModifyTransactionRequest state payload = state\<lparr> modifiedTransactionRequest := payload \<rparr>"

definition sendUserOperationRquest :: "TransactionState \<Rightarrow> UserOperation \<Rightarrow> TransactionState" where
  "sendUserOperationRquest state payload = state\<lparr> userOperationRequest := Some payload \<rparr>"

definition setUnsignedUserOperation :: "TransactionState \<Rightarrow> UserOperation \<Rightarrow> TransactionState" where
  "setUnsignedUserOperation state payload = state\<lparr> unsignedUserOperation := Some payload \<rparr>"

text \<open>
  The reducer also writes \<open>undefined\<close> under the keys \<open>typedDataRequest\<close> and
  \<open>signDataRequest\<close>, which \<open>TransactionState\<close> does not declare and nothing here reads.
\<close>

definition clearTransactionState :: "TransactionState \<Rightarrow> TransactionState" where
  "clearTransactionState state =
     state\<lparr> transactionRequest := None, transactionsRequest := None,
            modifiedTransactionRequest := None, requestOrigin := None,
            userOperationRequest := None, unsignedUserOperation := None \<rparr>"

datatype action =
    SendTransactionRequest EthersTransactionRequest string
  | SendTransactionsRequest "EthersTransactionRequest list" string
  | SetModifyTransactionRequest "EthersTransactionRequest option"
  | SendUserOperationRquest UserOperation
  | SetUnsignedUserOperation UserOperation
  | ClearTransactionState

fun transactionsReducer :: "TransactionState \<Rightarrow> action \<Rightarrow> TransactionState" where
  "transactionsReducer state (SendTransactionRequest r origin) = sendTransactionRequest state r origin"
| "transactionsReducer state (SendTransactionsRequest rs origin) = sendTransactionsRequest state rs origin"
| "transactionsReducer state (SetModifyTransactionRequest p) = setModifyTransactionRequest state p"
| "transactionsReducer state (SendUserOperationRquest p) = sendUserOperationRquest state p"
| "transactionsReducer state (SetUnsignedUserOperation p) = setUnsignedUserOperation state p"
| "transactionsReducer state ClearTransactionState = clearTransactionState state"

text \<open>
  The store's state: the transactions slice and the other slices, whose reducers are the
  parameter \<open>others\<close>. \<open>dispatch\<close> is synchronous: it returns the state after the action.
\<close>

record 'r RootState =
  transactions :: TransactionState
  otherSlices :: 'r

definition dispatch :: "(action \<Rightarrow> 'r \<Rightarrow> 'r) \<Rightarrow> action \<Rightarrow> 'r RootState \<Rightarrow> 'r RootState" where
  "dispatch others a st =
     \<lparr> transactions = transactionsReducer (transactions st) a,
       otherSlices = others a (otherSlices st) \<rparr>"

text \<open>Calls received by the provider bridge service.\<close>

datatype bridge_call = RejectRequest string string | ResolveRequest string string

text \<open>
  The thunk \<open>rejectTransaction\<close>: it returns the store's state and the calls made to the
  provider bridge. The thunk's \<open>dispatch\<close> and \<^verbatim>\<open>mainServiceManager.store\<close> are the one
  background store.
\<close>

definition rejectTransaction ::
  "(action \<Rightarrow> 'r \<Rightarrow> 'r) \<Rightarrow> string \<Rightarrow> 'r RootState \<Rightarrow> 'r RootState \<times> bridge_call list" where
  "rejectTransaction others addr st =
     (let st1 = dispatch others ClearTransactionState st;
          origin = requestOrigin (transactions st1)
      in (st1, [RejectRequest (orEmpty origin) []]))"

section \<open>The keyring service (services/keyring.ts): data\<close>

record 'd KeyringSerialisedState =
  type :: string
  address :: string
  data :: 'd

text \<open>
  The stored vault is a string that the code reads with \<^verbatim>\<open>JSON.parse\<close>. A string is
  modelled by what \<^verbatim>\<open>JSON.parse\<close> makes of it: an object with a \<open>salt\<close> property (absent:
  \<open>None\<close>) and the rest of the encryptor's payload, or a string that does not parse.
\<close>

record 'x EncryptionResult =
  cipher :: 'x
  salt :: "string option"

datatype 'x vault_string = JSON "'x EncryptionResult" | NotJSON string

definition JSON_parse :: "'x vault_string \<Rightarrow> 'x EncryptionResult option" where
  "JSON_parse v = (case v of JSON r \<Rightarrow> Some r | NotJSON _ \<Rightarrow> None)"

definition JSON_stringify :: "'x EncryptionResult \<Rightarrow> 'x vault_string" where
  "JSON_stringify r = JSON r"

text \<open>\<^verbatim>\<open>!this.vault\<close>: the vault is \<open>undefined\<close> or the empty string.\<close>

definition noVault :: "'x vault_string option \<Rightarrow> bool" where
  "noVault v = (case v of None \<Rightarrow> True | Some (NotJSON s) \<Rightarrow> s = [] | Some (JSON _) \<Rightarrow> False)"

datatype HttpRpcClient = HttpRpcClient string string nat

text \<open>
  The calls that leave the service and that the specification speaks about, in the order
  they are made: to the encryptor, to the store (\<open>vaultUpdate\<close>), to the account's
  \<open>signUserOp\<close> and to the bundler's \<open>estimateUserOpGas\<close>.
\<close>

datatype ('d, 'x) call =
    DecryptWithDetail string "'x vault_string"
  | ImportKey string
  | DecryptWithKey "'x EncryptionResult"
  | EncryptWithDetail string "'d KeyringSerialisedState list"
  | EncryptWithKey "'d KeyringSerialisedState list"
  | VaultUpdate "'x vault_string" "string option" "string option"
  | SignUserOp UserOperation
  | EstimateUserOpGas UserOperation

text \<open>
  The fields of the service. \<open>keyrings\<close> is a JavaScript object used as a dictionary: an
  association list in insertion order, which is the order of \<^verbatim>\<open>Object.values\<close> for keys
  that are not array indices. \<open>paymasterAPI\<close> is never assigned and is left out.
  \<open>calls\<close> is the trace of the calls above.
\<close>

record ('a, 'd, 'x) KeyringService =
  keyrings :: "(string \<times> 'a) list"
  vault :: "'x vault_string option"
  password :: "string option"
  encryptionKey :: "string option"
  encryptionSalt :: "string option"
  provider :: string
  bundler :: "HttpRpcClient option"
  bundlerUrl :: string
  entryPointAddress :: string
  calls :: "('d, 'x) call list"

datatype error =
    NoVaultToRestore
  | KeyAndSaltExpired
  | CannotPersistVault
  | AddressZeroReturned
  | BundlerNotConnected
  | EntryPointNotSupported
  | EntryPointNotDeployed
  | MainServiceManagerNeeded
  | Thrown string

text \<open>
  The account implementations (\<open>AccountApiType\<close> and the constants
  \<open>AccountImplementations\<close>, \<open>ActiveAccountImplementation\<close>) are outside the repository's
  sources and are parameters. An account is a value of type \<open>'a\<close>; a method that can throw
  or reject returns an option.
\<close>

record ('d, 'c) AccountApiParams =
  p_provider :: string
  p_bundler :: "HttpRpcClient option"
  p_entryPointAddress :: string
  p_context :: "'c option"
  p_deserializeState :: "'d option"

record ('a, 'd, 'c) accounts =
  AccountImplementations :: "string \<Rightarrow> (('d, 'c) AccountApiParams \<Rightarrow> 'a) option"
  ActiveAccountImplementation :: string
  account_init :: "'a \<Rightarrow> 'a option"
  getAccountAddress :: "'a \<Rightarrow> string option"
  serialize :: "'a \<Rightarrow> 'd option"
  createUnsignedUserOpWithContext ::
    "'a \<Rightarrow> TransactionDetailsForUserOp \<Rightarrow> 'c option \<Rightarrow> UserOperation option"
  signUserOp :: "'a \<Rightarrow> UserOperation \<Rightarrow> UserOperation option"

text \<open>The encryptor (\<^verbatim>\<open>@metamask/browser-passworder\<close>), a parameter as well.\<close>

record ('d, 'k, 'x) encryptor =
  decryptWithDetail ::
    "string \<Rightarrow> 'x vault_string \<Rightarrow> ('d KeyringSerialisedState list \<times> string \<times> string) option"
  importKey :: "string \<Rightarrow> 'k option"
  decryptWithKey :: "'k \<Rightarrow> 'x EncryptionResult \<Rightarrow> 'd KeyringSerialisedState list option"
  encryptWithDetail ::
    "string \<Rightarrow> 'd KeyringSerialisedState list \<Rightarrow> ('x vault_string \<times> string) option"
  encryptWithKey :: "'k \<Rightarrow> 'd KeyringSerialisedState list \<Rightarrow> 'x EncryptionResult option"

text \<open>
  The network: the JSON-RPC provider (named by its URL), the bundler's JSON-RPC endpoint
  and the bundler client.
\<close>

record 'rpc network =
  getNetwork :: "string \<Rightarrow> nat option"
  newJsonRpcProvider :: "string \<Rightarrow> 'rpc option"
  send_supportedEntryPoints :: "'rpc \<Rightarrow> string list option"
  getCode :: "string \<Rightarrow> string \<Rightarrow> string option"
  estimateUserOpGas :: "HttpRpcClient \<Rightarrow> UserOperation \<Rightarrow> GasParameters option"

text \<open>The argument of \<open>create\<close>'s \<open>initialState\<close>, of type \<open>Vault\<close>.\<close>

record 'x Vault =
  v_vault :: "'x vault_string option"
  v_encryptionKey :: "string option"
  v_encryptionSalt :: "string option"

section \<open>The keyring service: operations\<close>

text \<open>
  A method takes the service and returns its outcome (\<open>Inl\<close> what it throws) together
  with the service as the call leaves it: what was assigned before a throw stays assigned.
\<close>

definition KeyringService_new ::
  "string \<Rightarrow> string \<Rightarrow> string \<Rightarrow> 'x vault_string option \<Rightarrow> ('a, 'd, 'x) KeyringService" where
  "KeyringService_new prov bundlerU entryPoint v =
     \<lparr> keyrings = [], vault = v, password = None, encryptionKey = None,
       encryptionSalt = None, provider = prov, bundler = None, bundlerUrl = bundlerU,
       entryPointAddress = entryPoint, calls = [] \<rparr>"

definition init ::
  "'rpc network \<Rightarrow> ('a, 'd, 'x) KeyringService \<Rightarrow> (error + unit) \<times> ('a, 'd, 'x) KeyringService" where
  "init N s =
     (case getNetwork N (provider s) of
        None \<Rightarrow> (Inl (Thrown ''getNetwork''), s)
      | Some chainId \<Rightarrow>
     (case newJsonRpcProvider N (bundlerUrl s) of
        None \<Rightarrow> (Inl BundlerNotConnected, s)
      | Some bundlerRPC \<Rightarrow>
     (case send_supportedEntryPoints N bundlerRPC of
        None \<Rightarrow> (Inl (Thrown ''eth_supportedEntryPoints''), s)
      | Some supportedEntryPoint \<Rightarrow>
         if entryPointAddress s \<notin> set supportedEntryPoint then (Inl EntryPointNotSupported, s)
         else
     (case getCode N (provider s) (entryPointAddress s) of
        None \<Rightarrow> (Inl (Thrown ''getCode''), s)
      | Some code \<Rightarrow>
         if code = ''0x'' then (Inl EntryPointNotDeployed, s)
         else (Inr (), s\<lparr> bundler :=
                 Some (HttpRpcClient (bundlerUrl s) (entryPointAddress s) chainId) \<rparr>)))))"

text \<open>\<open>_newKeyring\<close>: an unregistered type makes the \<open>new\<close> expression throw a TypeError.\<close>

definition newKeyring ::
  "('a, 'd, 'c) accounts \<Rightarrow> string \<Rightarrow> string \<Rightarrow> 'd \<Rightarrow> ('a, 'd, 'x) KeyringService \<Rightarrow> error + 'a" where
  "newKeyring A addr ty dat s =
     (case AccountImplementations A ty of
        None \<Rightarrow> Inl (Thrown ''TypeError'')
      | Some ctor \<Rightarrow>
         (case account_init A (ctor \<lparr> p_provider = provider s, p_bundler = bundler s,
                  p_entryPointAddress = entryPointAddress s, p_context = None,
                  p_deserializeState = Some dat \<rparr>) of
            None \<Rightarrow> Inl (Thrown ''init'')
          | Some account \<Rightarrow> Inr account))"

text \<open>\<open>_restoreKeyring\<close>.\<close>

definition restoreKeyring ::
  "('a, 'd, 'c) accounts \<Rightarrow> 'd KeyringSerialisedState \<Rightarrow> ('a, 'd, 'x) KeyringService
   \<Rightarrow> (error + 'a) \<times> ('a, 'd, 'x) KeyringService" where
  "restoreKeyring A serialized s =
     (case newKeyring A (address serialized) (type serialized) (data serialized) s of
        Inl e \<Rightarrow> (Inl e, s)
      | Inr keyring \<Rightarrow>
         (Inr keyring, s\<lparr> keyrings := AList.update (address serialized) keyring (keyrings s) \<rparr>))"

text \<open>
  \<^verbatim>\<open>Promise.all(vault.map(this._restoreKeyring))\<close>: every restoration is started, so
  a record is restored also after another one failed. \<open>restoreKeyrings\<close> returns the
  rejections in the order of the records, and the service reached when all restorations
  have settled.
\<close>

fun restoreKeyrings ::
  "('a, 'd, 'c) accounts \<Rightarrow> 'd KeyringSerialisedState list \<Rightarrow> ('a, 'd, 'x) KeyringService
   \<Rightarrow> error list \<times> ('a, 'd, 'x) KeyringService" where
  "restoreKeyrings A [] s = ([], s)"
| "restoreKeyrings A (r # rs) s =
     (case restoreKeyring A r s of
        (Inl e, s1) \<Rightarrow> (e # fst (restoreKeyrings A rs s1), snd (restoreKeyrings A rs s1))
      | (Inr _, s1) \<Rightarrow> restoreKeyrings A rs s1)"

text \<open>
  \<^verbatim>\<open>Promise.all\<close> rejects with the rejection that settles first. The TypeError of an
  unregistered type is thrown before anything is awaited, so it settles before the
  rejection of any \<open>init\<close>, wherever its record stands in the list.
\<close>

definition firstRejection :: "error list \<Rightarrow> error option" where
  "firstRejection es =
     (case filter (\<lambda>e. e = Thrown ''TypeError'') es of
        e # _ \<Rightarrow> Some e
      | [] \<Rightarrow> (case es of [] \<Rightarrow> None | e # _ \<Rightarrow> Some e))"

definition unlockVault ::
  "('a, 'd, 'c) accounts \<Rightarrow> ('d, 'k, 'x) encryptor \<Rightarrow> string option \<Rightarrow> string option
   \<Rightarrow> string option \<Rightarrow> ('a, 'd, 'x) KeyringService
   \<Rightarrow> (error + (string \<times> 'a) list) \<times> ('a, 'd, 'x) KeyringService" where
  "unlockVault A E pw encKey encSalt s =
     (case vault s of
        None \<Rightarrow> (Inl NoVaultToRestore, s)
      | Some v \<Rightarrow>
     if noVault (Some v) then (Inl NoVaultToRestore, s)
     else
     (case
       (if truthy pw then
          (let s1 = s\<lparr> calls := calls s @ [DecryptWithDetail (orEmpty pw) v] \<rparr> in
           case decryptWithDetail E (orEmpty pw) v of
             None \<Rightarrow> (Inl (Thrown ''decryptWithDetail''), s1)
           | Some (vlt, exportedKeyString, slt) \<Rightarrow>
               (Inr vlt, s1\<lparr> password := pw, encryptionKey := Some exportedKeyString,
                              encryptionSalt := Some slt \<rparr>))
        else
          (case JSON_parse v of
             None \<Rightarrow> (Inl (Thrown ''JSON.parse''), s)
           | Some parsedEncryptedVault \<Rightarrow>
          if encSalt \<noteq> salt parsedEncryptedVault then (Inl KeyAndSaltExpired, s)
          else
          (let s1 = s\<lparr> calls := calls s @ [ImportKey (orEmpty encKey)] \<rparr> in
           case importKey E (orEmpty encKey) of
             None \<Rightarrow> (Inl (Thrown ''importKey''), s1)
           | Some key \<Rightarrow>
          (let s2 = s1\<lparr> calls := calls s1 @ [DecryptWithKey parsedEncryptedVault] \<rparr> in
           case decryptWithKey E key parsedEncryptedVault of
             None \<Rightarrow> (Inl (Thrown ''decryptWithKey''), s2)
           | Some vlt \<Rightarrow>
               (Inr vlt, s2\<lparr> encryptionKey := encKey, encryptionSalt := encSalt \<rparr>)))))
      of
        (Inl e, s3) \<Rightarrow> (Inl e, s3)
      | (Inr vlt, s3) \<Rightarrow>
         (case restoreKeyrings A vlt s3 of
            (rejections, s4) \<Rightarrow>
              (case firstRejection rejections of
                 Some e \<Rightarrow> (Inl e, s4)
               | None \<Rightarrow> (Inr (keyrings s4), s4)))))"

definition clearKeyrings ::
  "('a, 'd, 'x) KeyringService \<Rightarrow> unit \<times> ('a, 'd, 'x) KeyringService" where
  "clearKeyrings s = ((), s\<lparr> keyrings := [] \<rparr>)"

text \<open>The function mapped over \<^verbatim>\<open>Object.values(this.keyrings)\<close> in \<open>persistAllKeyrings\<close>.\<close>

definition serializeKeyring ::
  "('a, 'd, 'c) accounts \<Rightarrow> 'a \<Rightarrow> error + 'd KeyringSerialisedState" where
  "serializeKeyring A keyring =
     (case getAccountAddress A keyring of
        None \<Rightarrow> Inl (Thrown ''getAccountAddress'')
      | Some addr \<Rightarrow>
         (case serialize A keyring of
            None \<Rightarrow> Inl (Thrown ''serialize'')
          | Some dat \<Rightarrow>
              Inr \<lparr> type = ActiveAccountImplementation A, address = addr, data = dat \<rparr>))"

fun serializeKeyrings ::
  "('a, 'd, 'c) accounts \<Rightarrow> 'a list \<Rightarrow> error + 'd KeyringSerialisedState list" where
  "serializeKeyrings A [] = Inr []"
| "serializeKeyrings A (k # ks) =
     (case serializeKeyring A k of
        Inl e \<Rightarrow> Inl e
      | Inr r \<Rightarrow> (case serializeKeyrings A ks of Inl e \<Rightarrow> Inl e | Inr rs \<Rightarrow> Inr (r # rs)))"

definition persistAllKeyrings ::
  "('a, 'd, 'c) accounts \<Rightarrow> ('d, 'k, 'x) encryptor \<Rightarrow> ('a, 'd, 'x) KeyringService
   \<Rightarrow> (error + unit) \<times> ('a, 'd, 'x) KeyringService" where
  "persistAllKeyrings A E s =
     (if \<not> truthy (password s) \<and> \<not> truthy (encryptionKey s) then (Inl CannotPersistVault, s)
      else
     (case serializeKeyrings A (map snd (keyrings s)) of
        Inl e \<Rightarrow> (Inl e, s)
      | Inr serializedKeyrings \<Rightarrow>
     if truthy (password s) then
       (let s1 = s\<lparr> calls := calls s
                       @ [EncryptWithDetail (orEmpty (password s)) serializedKeyrings] \<rparr> in
        case encryptWithDetail E (orEmpty (password s)) serializedKeyrings of
          None \<Rightarrow> (Inl (Thrown ''encryptWithDetail''), s1)
        | Some (newVault, exportedKeyString) \<Rightarrow>
       (let s2 = s1\<lparr> encryptionKey := Some exportedKeyString \<rparr> in
        case JSON_parse newVault of
          None \<Rightarrow> (Inl (Thrown ''JSON.parse''), s2)
        | Some parsed \<Rightarrow>
            (Inr (), s2\<lparr> encryptionSalt := salt parsed,
                         calls := calls s2
                           @ [VaultUpdate newVault (Some exportedKeyString) (salt parsed)] \<rparr>)))
     else
       (let s1 = s\<lparr> calls := calls s @ [ImportKey (orEmpty (encryptionKey s))] \<rparr> in
        case importKey E (orEmpty (encryptionKey s)) of
          None \<Rightarrow> (Inl (Thrown ''importKey''), s1)
        | Some key \<Rightarrow>
       (let s2 = s1\<lparr> calls := calls s1 @ [EncryptWithKey serializedKeyrings] \<rparr> in
        case encryptWithKey E key serializedKeyrings of
          None \<Rightarrow> (Inl (Thrown ''encryptWithKey''), s2)
        | Some vaultJSON \<Rightarrow>
            (Inr (), s2\<lparr> calls := calls s2
                 @ [VaultUpdate (JSON_stringify (vaultJSON\<lparr> salt := encryptionSalt s \<rparr>))
                      (encryptionKey s) (encryptionSalt s)] \<rparr>)))))"

definition addAccount ::
  "('a, 'd, 'c) accounts \<Rightarrow> ('d, 'k, 'x) encryptor \<Rightarrow> string \<Rightarrow> 'c option
   \<Rightarrow> ('a, 'd, 'x) KeyringService \<Rightarrow> (error + string) \<times> ('a, 'd, 'x) KeyringService" where
  "addAccount A E implementation context s =
     (case AccountImplementations A implementation of
        None \<Rightarrow> (Inl (Thrown ''TypeError''), s)
      | Some ctor \<Rightarrow>
     (case account_init A (ctor \<lparr> p_provider = provider s, p_bundler = bundler s,
              p_entryPointAddress = entryPointAddress s, p_context = context,
              p_deserializeState = None \<rparr>) of
        None \<Rightarrow> (Inl (Thrown ''init''), s)
      | Some account \<Rightarrow>
     (case getAccountAddress A account of
        None \<Rightarrow> (Inl (Thrown ''getAccountAddress''), s)
      | Some addr \<Rightarrow>
     if addr = AddressZero then (Inl AddressZeroReturned, s)
     else
     (case persistAllKeyrings A E (s\<lparr> keyrings := AList.update addr account (keyrings s) \<rparr>) of
        (Inl e, s1) \<Rightarrow> (Inl e, s1)
      | (Inr _, s1) \<Rightarrow>
         (case getAccountAddress A account of
            None \<Rightarrow> (Inl (Thrown ''getAccountAddress''), s1)
          | Some a \<Rightarrow> (Inr a, s1))))))"

text \<open>
  Lines 408 to 423 of \<open>createUnsignedUserOp\<close>: each numeric field is replaced by
  \<^verbatim>\<open>ethers.BigNumber.from(field).toHexString()\<close>, the nonce first.
\<close>

definition normalizeUserOp :: "UserOperation \<Rightarrow> error + UserOperation" where
  "normalizeUserOp userOp =
     (case BigNumber_from (nonce userOp) of
        None \<Rightarrow> Inl (Thrown ''BigNumber.from'')
      | Some n \<Rightarrow>
     (case BigNumber_from (callGasLimit userOp) of
        None \<Rightarrow> Inl (Thrown ''BigNumber.from'')
      | Some c \<Rightarrow>
     (case BigNumber_from (verificationGasLimit userOp) of
        None \<Rightarrow> Inl (Thrown ''BigNumber.from'')
      | Some v \<Rightarrow>
     (case BigNumber_from (preVerificationGas userOp) of
        None \<Rightarrow> Inl (Thrown ''BigNumber.from'')
      | Some p \<Rightarrow>
     (case BigNumber_from (maxFeePerGas userOp) of
        None \<Rightarrow> Inl (Thrown ''BigNumber.from'')
      | Some mf \<Rightarrow>
     (case BigNumber_from (maxPriorityFeePerGas userOp) of
        None \<Rightarrow> Inl (Thrown ''BigNumber.from'')
      | Some mp \<Rightarrow>
         Inr (userOp\<lparr> nonce := JsString (toHexString n),
                callGasLimit := JsString (toHexString c),
                verificationGasLimit := JsString (toHexString v),
                preVerificationGas := JsString (toHexString p),
                maxFeePerGas := JsString (toHexString mf),
                maxPriorityFeePerGas := JsString (toHexString mp) \<rparr>)))))))"

text \<open>
  \<^verbatim>\<open>estimated.gt(BigNumber.from(current)) ? estimated.toHexString() : current\<close>
\<close>

definition mergeGas :: "BigNumberish \<Rightarrow> BigNumber \<Rightarrow> error + BigNumberish" where
  "mergeGas current estimated =
     (case BigNumber_from current of
        None \<Rightarrow> Inl (Thrown ''BigNumber.from'')
      | Some cur \<Rightarrow>
         (case gt estimated (JsBigNumber cur) of
            None \<Rightarrow> Inl (Thrown ''BN'')
          | Some isGreater \<Rightarrow>
              Inr (if isGreater then JsString (toHexString estimated) else current)))"

text \<open>The object literal built from the transaction, lines 392 to 403.\<close>

definition transactionDetails ::
  "EthersTransactionRequest \<Rightarrow> error + TransactionDetailsForUserOp" where
  "transactionDetails transaction =
     (case (if truthy (tx_data transaction) then hexConcat [orEmpty (tx_data transaction)]
            else Some ''0x'') of
        None \<Rightarrow> Inl (Thrown ''hexConcat'')
      | Some dat \<Rightarrow>
     (case (if truthyNum (tx_value transaction)
            then map_option Some (BigNumber_from (tx_value transaction)) else Some None) of
        None \<Rightarrow> Inl (Thrown ''BigNumber.from'')
      | Some val \<Rightarrow>
         Inr \<lparr> det_target = tx_to transaction, det_data = dat, det_value = val,
               det_gasLimit = tx_gasLimit transaction,
               det_maxFeePerGas = tx_maxFeePerGas transaction,
               det_maxPriorityFeePerGas = tx_maxPriorityFeePerGas transaction \<rparr>))"

text \<open>
  Lines 425 to 427:
  \<^verbatim>\<open>await this.bundler?.estimateUserOpGas(await keyring.signUserOp(userOp))\<close>.
  With no bundler the optional call evaluates nothing, not even its argument, and the
  result is \<open>undefined\<close>. The account's methods receive the operation by value: they
  return a new object and leave their argument as it is.
\<close>

definition estimateWithBundler ::
  "('a, 'd, 'c) accounts \<Rightarrow> 'rpc network \<Rightarrow> 'a \<Rightarrow> UserOperation \<Rightarrow> ('a, 'd, 'x) KeyringService
   \<Rightarrow> (error + GasParameters option) \<times> ('a, 'd, 'x) KeyringService" where
  "estimateWithBundler A N keyring userOp s =
     (case bundler s of
        None \<Rightarrow> (Inr None, s)
      | Some b \<Rightarrow>
         (case signUserOp A keyring userOp of
            None \<Rightarrow> (Inl (Thrown ''signUserOp''), s\<lparr> calls := calls s @ [SignUserOp userOp] \<rparr>)
          | Some signed \<Rightarrow>
             (case estimateUserOpGas N b signed of
                None \<Rightarrow>
                  (Inl (Thrown ''estimateUserOpGas''),
                   s\<lparr> calls := calls s @ [SignUserOp userOp, EstimateUserOpGas signed] \<rparr>)
              | Some g \<Rightarrow>
                  (Inr (Some g),
                   s\<lparr> calls := calls s @ [SignUserOp userOp, EstimateUserOpGas signed] \<rparr>))))"

text \<open>
  Lines 429 to 455: the three estimates are read with \<^verbatim>\<open>BigNumber.from\<close>
  (\<^verbatim>\<open>gasParameters?.callGasLimit\<close> is \<open>undefined\<close> when there are no gas parameters), then
  each of the three limits is merged.
\<close>

definition mergeGasParameters ::
  "UserOperation \<Rightarrow> GasParameters option \<Rightarrow> error + UserOperation" where
  "mergeGasParameters userOp gasParameters =
     (case BigNumber_from
             (case gasParameters of None \<Rightarrow> JsUndefined | Some g \<Rightarrow> est_callGasLimit g) of
        None \<Rightarrow> Inl (Thrown ''BigNumber.from'')
      | Some estimatedGasLimit \<Rightarrow>
     (case BigNumber_from
             (case gasParameters of None \<Rightarrow> JsUndefined | Some g \<Rightarrow> est_verificationGasLimit g) of
        None \<Rightarrow> Inl (Thrown ''BigNumber.from'')
      | Some estimateVerificationGasLimit \<Rightarrow>
     (case BigNumber_from
             (case gasParameters of None \<Rightarrow> JsUndefined | Some g \<Rightarrow> est_preVerificationGas g) of
        None \<Rightarrow> Inl (Thrown ''BigNumber.from'')
      | Some estimatePreVerificationGas \<Rightarrow>
     (case mergeGas (callGasLimit userOp) estimatedGasLimit of
        Inl e \<Rightarrow> Inl e
      | Inr c \<Rightarrow>
     (case mergeGas (verificationGasLimit userOp) estimateVerificationGasLimit of
        Inl e \<Rightarrow> Inl e
      | Inr v \<Rightarrow>
     (case mergeGas (preVerificationGas userOp) estimatePreVerificationGas of
        Inl e \<Rightarrow> Inl e
      | Inr p \<Rightarrow>
         Inr (userOp\<lparr> callGasLimit := c, verificationGasLimit := v,
                preVerificationGas := p \<rparr>)))))))"

text \<open>
  \<open>createUnsignedUserOp\<close>. An address with no keyring makes the method call on
  \<open>undefined\<close> throw a TypeError before anything else is evaluated.
\<close>

definition createUnsignedUserOp ::
  "('a, 'd, 'c) accounts \<Rightarrow> 'rpc network \<Rightarrow> string \<Rightarrow> EthersTransactionRequest
   \<Rightarrow> 'c option \<Rightarrow> ('a, 'd, 'x) KeyringService
   \<Rightarrow> (error + UserOperation) \<times> ('a, 'd, 'x) KeyringService" where
  "createUnsignedUserOp A N addr transaction context s =
     (case map_of (keyrings s) addr of
        None \<Rightarrow> (Inl (Thrown ''TypeError''), s)
      | Some keyring \<Rightarrow>
     (case transactionDetails transaction of
        Inl e \<Rightarrow> (Inl e, s)
      | Inr details \<Rightarrow>
     (case createUnsignedUserOpWithContext A keyring details context of
        None \<Rightarrow> (Inl (Thrown ''createUnsignedUserOpWithContext''), s)
      | Some provisional \<Rightarrow>
     (case normalizeUserOp provisional of
        Inl e \<Rightarrow> (Inl e, s)
      | Inr userOp \<Rightarrow>
     (case estimateWithBundler A N keyring userOp s of
        (Inl e, s1) \<Rightarrow> (Inl e, s1)
      | (Inr gasParameters, s1) \<Rightarrow>
         (case mergeGasParameters userOp gasParameters of
            Inl e \<Rightarrow> (Inl e, s1)
          | Inr merged \<Rightarrow> (Inr merged, s1)))))))"

text \<open>
  The static method \<open>create\<close>. \<open>mainServiceManager\<close> is present or not; the properties
  \<open>provider\<close>, \<open>bundler\<close> and \<open>entryPointAddress\<close> are strings.
\<close>

definition create ::
  "'rpc network \<Rightarrow> ('a, 'd, 'c) accounts \<Rightarrow> ('d, 'k, 'x) encryptor \<Rightarrow> unit option
   \<Rightarrow> 'x Vault option \<Rightarrow> string \<Rightarrow> string \<Rightarrow> string \<Rightarrow> error + ('a, 'd, 'x) KeyringService" where
  "create N A E mainServiceManager initialSt prov bundlerU entryPoint =
     (case mainServiceManager of
        None \<Rightarrow> Inl MainServiceManagerNeeded
      | Some _ \<Rightarrow>
     (case init N (KeyringService_new prov bundlerU entryPoint
                     (case initialSt of None \<Rightarrow> None | Some i \<Rightarrow> v_vault i)) of
        (Inl e, _) \<Rightarrow> Inl e
      | (Inr _, keyringService) \<Rightarrow>
     (case initialSt of
        None \<Rightarrow> Inr keyringService
      | Some i \<Rightarrow>
         if truthy (v_encryptionKey i) \<and> truthy (v_encryptionSalt i) then
           (case unlockVault A E None (v_encryptionKey i) (v_encryptionSalt i) keyringService of
              (Inl e, _) \<Rightarrow> Inl e
            | (Inr _, unlocked) \<Rightarrow> Inr unlocked)
         else Inr keyringService)))"

section \<open>Predicates used in the statements\<close>



text \<open>
  \<open>encryptsTo E s recs v\<close>: with the credential of the service \<open>s\<close>, the password if there
  is one and the key otherwise, the encryptor turns the records \<open>recs\<close> into the vault
  string \<open>v\<close>; in key mode the salt of the service is written into it.
\<close>

definition encryptsTo ::
  "('d, 'k, 'x) encryptor \<Rightarrow> ('a, 'd, 'x) KeyringService \<Rightarrow> 'd KeyringSerialisedState list
   \<Rightarrow> 'x vault_string \<Rightarrow> bool" where
  "encryptsTo E s recs v =
     (if truthy (password s) then
        (case encryptWithDetail E (orEmpty (password s)) recs of
           None \<Rightarrow> False
         | Some (newVault, exportedKeyString) \<Rightarrow> newVault = v)
      else
        (case importKey E (orEmpty (encryptionKey s)) of
           None \<Rightarrow> False
         | Some key \<Rightarrow>
            (case encryptWithKey E key recs of
               None \<Rightarrow> False
             | Some vaultJSON \<Rightarrow>
                 v = JSON_stringify (vaultJSON\<lparr> salt := encryptionSalt s \<rparr>))))"

text \<open>
  The calls that a persist in encryption mode of \<open>s\<close> makes before it dispatches the vault.
\<close>

definition encryptCalls ::
  "('a, 'd, 'x) KeyringService \<Rightarrow> 'd KeyringSerialisedState list \<Rightarrow> ('d, 'x) call list" where
  "encryptCalls s recs =
     (if truthy (password s) then [EncryptWithDetail (orEmpty (password s)) recs]
      else [ImportKey (orEmpty (encryptionKey s)), EncryptWithKey recs])"

text \<open>
  \<open>canonicalHex n\<close>: the integer \<open>n\<close> in hexadecimal with the prefix \<open>0x\<close>, lower-case
  digits, an even number of them and no more than needed, and a minus sign before the
  prefix if \<open>n\<close> is negative.
\<close>

definition evenLength :: "string \<Rightarrow> string" where
  "evenLength ds = (if odd (length ds) then CHR ''0'' # ds else ds)"

definition canonicalHex :: "int \<Rightarrow> string" where
  "canonicalHex n =
     (if n < 0 then ''-0x'' else ''0x'') @ evenLength (hexOfNat (nat \<bar>n\<bar>))"

text \<open>
  \<open>writtenLowerCase v\<close>: \<open>v\<close> is a number below \<open>MAX_SAFE\<close> in magnitude, a decimal string,
  a hexadecimal string whose prefix and digits are in lower case, or a \<open>BigNumber\<close> that
  holds the canonical string of its integer.
\<close>

definition isLowerHexNumberString :: "string \<Rightarrow> bool" where
  "isLowerHexNumberString s =
     (take 2 (unsignedPart s) = ''0x'' \<and> drop 2 (unsignedPart s) \<noteq> []
      \<and> list_all (\<lambda>c. isDigit c \<or> isLowerHexLetter c) (drop 2 (unsignedPart s)))"

definition writtenLowerCase :: "BigNumberish \<Rightarrow> bool" where
  "writtenLowerCase v =
     (case v of
        JsUndefined \<Rightarrow> False
      | JsNumber n \<Rightarrow> - MAX_SAFE < n \<and> n < MAX_SAFE
      | JsString s \<Rightarrow> isLowerHexNumberString s \<or> isDecimalString s
      | JsBigNumber b \<Rightarrow>
          (case toBN v of None \<Rightarrow> False | Some n \<Rightarrow> toHexString b = canonicalHex n))"

text \<open>
  \<open>denotes x n\<close>: the library reads the integer \<open>n\<close> in \<open>x\<close>; if \<open>x\<close> is a \<open>BigNumber\<close>, it
  holds a string that \<^verbatim>\<open>BigNumber.from\<close> stores as it is, as every \<open>BigNumber\<close> that
  \<^verbatim>\<open>BigNumber.from\<close> made of a number or a string does.
\<close>

definition denotes :: "BigNumberish \<Rightarrow> int \<Rightarrow> bool" where
  "denotes x n =
     (toBN x = Some n
      \<and> (case x of
            JsBigNumber b \<Rightarrow> BigNumber_from (JsString (toHexString b)) = Some b
          | _ \<Rightarrow> True))"

text \<open>
  The six fields that \<open>createUnsignedUserOp\<close> normalizes, in the order of the
  assignments.
\<close>

definition numericFields :: "UserOperation \<Rightarrow> BigNumberish list" where
  "numericFields userOp =
     [nonce userOp, callGasLimit userOp, verificationGasLimit userOp,
      preVerificationGas userOp, maxFeePerGas userOp, maxPriorityFeePerGas userOp]"

section \<open>A concrete environment\<close>

text \<open>One instance of each collaborator, on which the operations can be run.\<close>

text \<open>
  An account: the name of the implementation that constructed it, the state it was
  constructed from, and whether \<open>init\<close> has run. The address is derived from the state;
  an account constructed from nothing gets the zero address.
\<close>

record demo_account =
  madeBy :: string
  ownerState :: string
  initialized :: bool

definition demoCtor :: "string \<Rightarrow> (string, string) AccountApiParams \<Rightarrow> demo_account" where
  "demoCtor name params =
     \<lparr> madeBy = name,
       ownerState = (case p_deserializeState params of
                       Some st \<Rightarrow> st
                     | None \<Rightarrow> (case p_context params of Some c \<Rightarrow> c | None \<Rightarrow> [])),
       initialized = False \<rparr>"

definition demoAddress :: "demo_account \<Rightarrow> string" where
  "demoAddress a = (if ownerState a = [] then AddressZero else ''0x'' @ ownerState a)"

text \<open>
  The provisional operation of an account. The account with the state \<open>aa\<close> writes its
  pre-verification gas with upper-case letters, every other account with lower-case ones.
\<close>

definition demoProvisional :: "demo_account \<Rightarrow> TransactionDetailsForUserOp \<Rightarrow> UserOperation" where
  "demoProvisional a details =
     \<lparr> sender = demoAddress a, nonce = JsNumber 7, initCode = ''0x'',
       callData = det_data details, callGasLimit = JsString ''35000'',
       verificationGasLimit = JsBigNumber (BigNumber ''0x0186a0''),
       preVerificationGas = JsString (if ownerState a = ''aa'' then ''0xB708'' else ''0xb708''),
       maxFeePerGas = det_maxFeePerGas details,
       maxPriorityFeePerGas = det_maxPriorityFeePerGas details,
       paymasterAndData = ''0x'', signature = [] \<rparr>"

definition demoAccounts :: "(demo_account, string, string) accounts" where
  "demoAccounts =
     \<lparr> AccountImplementations =
         (\<lambda>name. if name = ''simple'' \<or> name = ''multisig'' then Some (demoCtor name) else None),
       ActiveAccountImplementation = ''simple'',
       account_init = (\<lambda>a. Some (a\<lparr> initialized := True \<rparr>)),
       getAccountAddress = (\<lambda>a. Some (demoAddress a)),
       serialize = (\<lambda>a. Some (ownerState a)),
       createUnsignedUserOpWithContext = (\<lambda>a details c. Some (demoProvisional a details)),
       signUserOp = (\<lambda>a userOp. Some (userOp\<lparr> signature := ''signed-by-'' @ ownerState a \<rparr>)) \<rparr>"

text \<open>
  An encryptor that keeps the key beside the records: the key of a password is the
  password reversed, and decryption fails unless the keys agree.
\<close>

definition demoEncryptor ::
  "(string, string, string \<times> string KeyringSerialisedState list) encryptor" where
  "demoEncryptor =
     \<lparr> decryptWithDetail = (\<lambda>pw v.
         case v of
           NotJSON _ \<Rightarrow> None
         | JSON r \<Rightarrow> (if fst (cipher r) = rev pw
                       then Some (snd (cipher r), rev pw, orEmpty (salt r)) else None)),
       importKey = (\<lambda>k. Some k),
       decryptWithKey = (\<lambda>k r. if fst (cipher r) = k then Some (snd (cipher r)) else None),
       encryptWithDetail = (\<lambda>pw recs.
         Some (JSON \<lparr> cipher = (rev pw, recs), salt = Some ''salt-1'' \<rparr>, rev pw)),
       encryptWithKey = (\<lambda>k recs. Some \<lparr> cipher = (k, recs), salt = None \<rparr>) \<rparr>"

text \<open>The estimate that the bundler of the concrete network returns.\<close>

definition demoGasParameters :: GasParameters where
  "demoGasParameters =
     \<lparr> est_callGasLimit = JsString ''0x9c40'', est_verificationGasLimit = JsNumber 50000,
       est_preVerificationGas = JsString ''0xb708'' \<rparr>"

text \<open>A network with one supported, deployed entry point.\<close>

definition demoNetwork :: "string network" where
  "demoNetwork =
     \<lparr> getNetwork = (\<lambda>url. Some 1),
       newJsonRpcProvider = (\<lambda>url. Some url),
       send_supportedEntryPoints = (\<lambda>rpc. Some [''0xentry'']),
       getCode = (\<lambda>url a. Some (if a = ''0xentry'' then ''0x6080'' else ''0x'')),
       estimateUserOpGas = (\<lambda>client userOp.
         Some demoGasParameters) \<rparr>"

definition demoService ::
  "(demo_account, string, string \<times> string KeyringSerialisedState list) KeyringService" where
  "demoService =
     \<lparr> keyrings = [(''0xaa'', \<lparr> madeBy = ''multisig'', ownerState = ''aa'', initialized = True \<rparr>)],
       vault = Some (JSON \<lparr> cipher = (''terces'', []), salt = Some ''salt-0'' \<rparr>),
       password = Some ''secret'', encryptionKey = Some ''terces'',
       encryptionSalt = Some ''salt-0'', provider = ''http://node'',
       bundler = Some (HttpRpcClient ''http://bundler'' ''0xentry'' 1),
       bundlerUrl = ''http://bundler'', entryPointAddress = ''0xentry'', calls = [] \<rparr>"

definition demoTransaction :: EthersTransactionRequest where
  "demoTransaction =
     \<lparr> tx_to = ''0xbb'', tx_data = None, tx_value = JsUndefined, tx_gasLimit = JsUndefined,
       tx_maxFeePerGas = JsString ''0x3b9a'', tx_maxPriorityFeePerGas = JsNumber 1000 \<rparr>"

text \<open>
  The keyring registered under \<open>0xaa\<close>, the details made from the transaction, and the
  provisional operation after normalization.
\<close>

definition demoKeyring :: demo_account where
  "demoKeyring = \<lparr> madeBy = ''multisig'', ownerState = ''aa'', initialized = True \<rparr>"

definition demoDetails :: TransactionDetailsForUserOp where
  "demoDetails =
     \<lparr> det_target = ''0xbb'', det_data = ''0x'', det_value = None,
       det_gasLimit = JsUndefined, det_maxFeePerGas = JsString ''0x3b9a'',
       det_maxPriorityFeePerGas = JsNumber 1000 \<rparr>"

definition demoNormalized :: UserOperation where
  "demoNormalized =
     \<lparr> sender = ''0xaa'', nonce = JsString ''0x07'', initCode = ''0x'',
       callData = ''0x'', callGasLimit = JsString ''0x88b8'',
       verificationGasLimit = JsString ''0x0186a0'', preVerificationGas = JsString ''0xB708'',
       maxFeePerGas = JsString ''0x3b9a'', maxPriorityFeePerGas = JsString ''0x03e8'',
       paymasterAndData = ''0x'', signature = [] \<rparr>"

text \<open>
  A second keyring, a service that holds it, and its provisional operation after
  normalization.
\<close>

definition demoKeyringCC :: demo_account where
  "demoKeyringCC = \<lparr> madeBy = ''simple'', ownerState = ''cc'', initialized = True \<rparr>"

definition demoServiceCC ::
  "(demo_account, string, string \<times> string KeyringSerialisedState list) KeyringService" where
  "demoServiceCC = demoService\<lparr> keyrings := [(''0xcc'', demoKeyringCC)] \<rparr>"

definition demoNormalizedCC :: UserOperation where
  "demoNormalizedCC =
     demoNormalized\<lparr> sender := ''0xcc'', preVerificationGas := JsString ''0xb708'' \<rparr>"

text \<open>The same six integers as in these provisional operations, written otherwise.\<close>

definition demoOtherProvisional :: UserOperation where
  "demoOtherProvisional =
     \<lparr> sender = ''0xdd'', nonce = JsString ''0x7'', initCode = ''0x'',
       callData = ''0x1234'', callGasLimit = JsNumber 35000,
       verificationGasLimit = JsString ''100000'',
       preVerificationGas = JsBigNumber (BigNumber ''0xb708''),
       maxFeePerGas = JsNumber 15258, maxPriorityFeePerGas = JsString ''0x3e8'',
       paymasterAndData = ''0x'', signature = [] \<rparr>"

text \<open>The service without its password: it persists with the key.\<close>

definition demoKeyService ::
  "(demo_account, string, string \<times> string KeyringSerialisedState list) KeyringService" where
  "demoKeyService = demoService\<lparr> password := None \<rparr>"

text \<open>The records of the two keyrings, and the vault string that the encryptor makes.\<close>

definition demoRecordAA :: "string KeyringSerialisedState" where
  "demoRecordAA = \<lparr> type = ''simple'', address = ''0xaa'', data = ''aa'' \<rparr>"

definition demoRecordCC :: "string KeyringSerialisedState" where
  "demoRecordCC = \<lparr> type = ''simple'', address = ''0xcc'', data = ''cc'' \<rparr>"

definition demoVault ::
  "string KeyringSerialisedState list \<Rightarrow> string
   \<Rightarrow> (string \<times> string KeyringSerialisedState list) vault_string" where
  "demoVault recs slt = JSON \<lparr> cipher = (''terces'', recs), salt = Some slt \<rparr>"


section \<open>Rejecting a transaction\<close>

text \<open>
  C10. For every prior state of the store, \<open>rejectTransaction\<close> clears the transactions slice
  before it reads \<open>requestOrigin\<close>, so the one call it makes to the provider bridge is
  \<open>rejectRequest\<close> with the empty string as origin, whatever origin the request came with.
\<close>

theorem rejectTransaction_origin_empty:
  "snd (rejectTransaction others addr st) = [RejectRequest [] []]
   \<and> requestOrigin (transactions (fst (rejectTransaction others addr st))) = None"
  by (simp add: rejectTransaction_def dispatch_def clearTransactionState_def orEmpty_def)

section \<open>Clearing the keyrings\<close>

text \<open>
  \<open>clearKeyrings\<close> assigns the empty object to \<open>keyrings\<close> and nothing else. On a service
  that holds a password, a key and a salt, all three are still there afterwards.
\<close>

theorem clearKeyrings_keeps_credential_counterexample:
  "\<not> (password (snd (clearKeyrings demoService)) = None
      \<and> encryptionKey (snd (clearKeyrings demoService)) = None
      \<and> encryptionSalt (snd (clearKeyrings demoService)) = None)"
  by (simp add: clearKeyrings_def demoService_def)

text \<open>
  C7, amended. After \<open>clearKeyrings\<close> the registry of keyrings is empty, and the stored
  vault, the password, the encryption key, the salt and the trace of calls are what they
  were before: the credential is kept, not dropped.
\<close>

theorem clearKeyrings_empties_registry_only:
  "clearKeyrings s = ((), s\<lparr> keyrings := [] \<rparr>)
   \<and> keyrings (snd (clearKeyrings s)) = []
   \<and> vault (snd (clearKeyrings s)) = vault s
   \<and> password (snd (clearKeyrings s)) = password s
   \<and> encryptionKey (snd (clearKeyrings s)) = encryptionKey s
   \<and> encryptionSalt (snd (clearKeyrings s)) = encryptionSalt s
   \<and> calls (snd (clearKeyrings s)) = calls s"
  by (simp add: clearKeyrings_def)

section \<open>Unlocking with a stale key\<close>

text \<open>
  C3. The stored vault parses to an object whose salt is \<open>salt parsed\<close>; the unlock is by
  key and salt, that is, no password is given (the code tests the password first and takes
  the password branch when there is one). If the salt supplied differs from the stored
  one, \<open>unlockVault\<close> throws "Encryption key and salt provided are expired" and leaves the
  service as it was: in particular the trace is unchanged, so neither \<open>importKey\<close> nor
  \<open>decryptWithKey\<close> nor \<open>decryptWithDetail\<close> was called.
\<close>

theorem unlockVault_stale_salt:
  assumes "vault s = Some (JSON parsed)"
    and "\<not> truthy pw"
    and "encSalt \<noteq> salt parsed"
  shows "unlockVault A E pw encKey encSalt s = (Inl KeyAndSaltExpired, s)"
  using assms by (simp add: unlockVault_def noVault_def JSON_parse_def)

theorem unlockVault_stale_salt_witness:
  "vault demoService = Some (JSON \<lparr> cipher = (''terces'', []), salt = Some ''salt-0'' \<rparr>)
   \<and> \<not> truthy None
   \<and> Some ''salt-9'' \<noteq> salt \<lparr> cipher = (''terces'', [] :: string KeyringSerialisedState list),
                                salt = Some ''salt-0'' \<rparr>
   \<and> unlockVault demoAccounts demoEncryptor None (Some ''terces'') (Some ''salt-9'') demoService
       = (Inl KeyAndSaltExpired, demoService)
   \<and> calls demoService = []"
proof -
  have v: "vault demoService = Some (JSON \<lparr> cipher = (''terces'', []), salt = Some ''salt-0'' \<rparr>)"
    by (simp add: demoService_def)
  have p: "\<not> truthy None" by (simp add: truthy_def)
  have n: "Some ''salt-9'' \<noteq> salt \<lparr> cipher = (''terces'', [] :: string KeyringSerialisedState list),
                                    salt = Some ''salt-0'' \<rparr>"
    by simp
  have c: "calls demoService = []" by (simp add: demoService_def)
  from unlockVault_stale_salt [OF v p n, of demoAccounts demoEncryptor "Some ''terces''"] v p n c
  show ?thesis by simp
qed

section \<open>Adding an account\<close>

text \<open>
  C4. Whatever the implementation and the context: when the account just constructed and
  initialized derives the zero address, \<open>addAccount\<close> throws the address error and the
  service is exactly what it was. The registry has no new entry, and the trace has no new
  call, so nothing was encrypted and no vault update was dispatched: no persist ran.
\<close>

theorem addAccount_zero_address:
  assumes "AccountImplementations A implementation = Some ctor"
    and "account_init A (ctor \<lparr> p_provider = provider s, p_bundler = bundler s,
            p_entryPointAddress = entryPointAddress s, p_context = context,
            p_deserializeState = None \<rparr>) = Some account"
    and "getAccountAddress A account = Some AddressZero"
  shows "addAccount A E implementation context s = (Inl AddressZeroReturned, s)"
  using assms by (simp add: addAccount_def)

theorem addAccount_zero_address_witness:
  "AccountImplementations demoAccounts ''simple'' = Some (demoCtor ''simple'')
   \<and> account_init demoAccounts (demoCtor ''simple''
         \<lparr> p_provider = provider demoService, p_bundler = bundler demoService,
           p_entryPointAddress = entryPointAddress demoService, p_context = None,
           p_deserializeState = None \<rparr>)
       = Some \<lparr> madeBy = ''simple'', ownerState = [], initialized = True \<rparr>
   \<and> getAccountAddress demoAccounts \<lparr> madeBy = ''simple'', ownerState = [], initialized = True \<rparr>
       = Some AddressZero
   \<and> addAccount demoAccounts demoEncryptor ''simple'' None demoService
       = (Inl AddressZeroReturned, demoService)"
proof -
  have i: "AccountImplementations demoAccounts ''simple'' = Some (demoCtor ''simple'')"
    by (simp add: demoAccounts_def)
  have a: "account_init demoAccounts (demoCtor ''simple''
         \<lparr> p_provider = provider demoService, p_bundler = bundler demoService,
           p_entryPointAddress = entryPointAddress demoService, p_context = None,
           p_deserializeState = None \<rparr>)
       = Some \<lparr> madeBy = ''simple'', ownerState = [], initialized = True \<rparr>"
    by (simp add: demoAccounts_def demoCtor_def)
  have z: "getAccountAddress demoAccounts \<lparr> madeBy = ''simple'', ownerState = [], initialized = True \<rparr>
       = Some AddressZero"
    by (simp add: demoAccounts_def demoAddress_def)
  from addAccount_zero_address [OF i a z, of demoEncryptor] i a z
  show ?thesis by simp
qed

section \<open>Start-up checks\<close>

lemma init_fails:
  assumes "(\<exists>rpc supported. newJsonRpcProvider N (bundlerUrl s) = Some rpc
              \<and> send_supportedEntryPoints N rpc = Some supported
              \<and> entryPointAddress s \<notin> set supported)
           \<or> getCode N (provider s) (entryPointAddress s) = Some ''0x''"
  shows "\<exists>e. init N s = (Inl e, s)"
  using assms by (auto simp add: init_def split: option.splits)

text \<open>
  C8. If the bundler's answer to \<open>eth_supportedEntryPoints\<close> does not contain the
  configured entry point, or the code at the entry point is \<open>0x\<close>, then \<open>init\<close> throws
  and leaves the service without a bundler client, and \<open>create\<close> throws as well: it
  returns no service, so there is nothing to unlock or to sign with.
\<close>

theorem create_fails_on_bad_entry_point:
  assumes "(\<exists>rpc supported. newJsonRpcProvider N bundlerU = Some rpc
              \<and> send_supportedEntryPoints N rpc = Some supported
              \<and> entryPoint \<notin> set supported)
           \<or> getCode N prov entryPoint = Some ''0x''"
  shows "(\<exists>e. init N (KeyringService_new prov bundlerU entryPoint v
                 :: ('a, 'd, 'x) KeyringService)
              = (Inl e, KeyringService_new prov bundlerU entryPoint v))
         \<and> (\<exists>e. (create N A E mainServiceManager initialSt prov bundlerU entryPoint
                 :: error + ('a, 'd, 'x) KeyringService) = Inl e)"
proof -
  have f: "\<And>w. \<exists>e. init N (KeyringService_new prov bundlerU entryPoint w :: ('a, 'd, 'x) KeyringService)
              = (Inl e, KeyringService_new prov bundlerU entryPoint w)"
    using assms by (intro init_fails) (simp add: KeyringService_new_def)
  show ?thesis
  proof
    show "\<exists>e. init N (KeyringService_new prov bundlerU entryPoint v :: ('a, 'd, 'x) KeyringService)
              = (Inl e, KeyringService_new prov bundlerU entryPoint v)"
      by (rule f)
  next
    obtain e where "init N (KeyringService_new prov bundlerU entryPoint
              (case initialSt of None \<Rightarrow> None | Some i \<Rightarrow> v_vault i) :: ('a, 'd, 'x) KeyringService)
            = (Inl e, KeyringService_new prov bundlerU entryPoint
              (case initialSt of None \<Rightarrow> None | Some i \<Rightarrow> v_vault i))"
      using f by blast
    then show "\<exists>e. (create N A E mainServiceManager initialSt prov bundlerU entryPoint
                 :: error + ('a, 'd, 'x) KeyringService) = Inl e"
      by (cases mainServiceManager) (simp_all add: create_def)
  qed
qed

theorem create_fails_on_bad_entry_point_witness:
  "((\<exists>rpc supported. newJsonRpcProvider demoNetwork ''http://bundler'' = Some rpc
       \<and> send_supportedEntryPoints demoNetwork rpc = Some supported
       \<and> ''0xother'' \<notin> set supported)
     \<or> getCode demoNetwork ''http://node'' ''0xother'' = Some ''0x'')
   \<and> (\<exists>e. (create demoNetwork demoAccounts demoEncryptor (Some ()) None
              ''http://node'' ''http://bundler'' ''0xother''
            :: error + (demo_account, string, string \<times> string KeyringSerialisedState list) KeyringService)
           = Inl e)"
proof -
  have h: "(\<exists>rpc supported. newJsonRpcProvider demoNetwork ''http://bundler'' = Some rpc
       \<and> send_supportedEntryPoints demoNetwork rpc = Some supported
       \<and> ''0xother'' \<notin> set supported)
     \<or> getCode demoNetwork ''http://node'' ''0xother'' = Some ''0x''"
    by (simp add: demoNetwork_def)
  from create_fails_on_bad_entry_point [OF h, of None demoAccounts demoEncryptor "Some ()" None] h
  show ?thesis by blast
qed

section \<open>Persisting the registry\<close>

lemma serializeKeyrings_records:
  "serializeKeyrings A ks = Inr recs \<Longrightarrow>
     list_all2 (\<lambda>r k. type r = ActiveAccountImplementation A
                  \<and> getAccountAddress A k = Some (address r)
                  \<and> serialize A k = Some (data r)) recs ks"
proof (induction ks arbitrary: recs)
  case Nil
  then show ?case by simp
next
  case (Cons k ks)
  then show ?case
    by (auto simp add: serializeKeyring_def split: sum.splits option.splits)
qed

lemma persistAllKeyrings_success:
  assumes "persistAllKeyrings A E s = (Inr u, s')"
  shows "\<exists>recs v.
           serializeKeyrings A (map snd (keyrings s)) = Inr recs
         \<and> keyrings s' = keyrings s
         \<and> encryptsTo E s recs v
         \<and> calls s' = calls s @ encryptCalls s recs
                        @ [VaultUpdate v (encryptionKey s') (encryptionSalt s')]"
  using assms
  by (auto simp add: persistAllKeyrings_def encryptsTo_def encryptCalls_def Let_def
        split: if_splits sum.splits option.splits prod.splits)

lemma encryptsTo_keyrings [simp]:
  "encryptsTo E (s\<lparr> keyrings := ks \<rparr>) recs v = encryptsTo E s recs v"
  by (simp add: encryptsTo_def split: option.splits)

lemma encryptCalls_keyrings [simp]:
  "encryptCalls (s\<lparr> keyrings := ks \<rparr>) recs = encryptCalls s recs"
  by (simp add: encryptCalls_def)

text \<open>
  C5. When \<open>addAccount\<close> returns an address, the account that the constructor of the
  implementation made and \<open>init\<close> initialized has this address and is registered under it,
  in a registry that otherwise is the one before the call (\<open>AList.update\<close> keeps every
  other entry), and a persist has run to its end. The records \<open>recs\<close> of that persist are
  the serialization of the whole registry as it is then: as many records as keyrings and,
  position by position, the address and the serialized state of that keyring. The
  encryptor, called with the credential of the service, made the vault string \<open>v\<close> of
  exactly these records, and the calls that \<open>addAccount\<close> added to the trace are those of
  this encryption followed by the dispatch of \<open>vaultUpdate\<close> with this \<open>v\<close> and with the key
  and the salt that the service holds when it returns.
\<close>

theorem addAccount_persists_whole_registry:
  assumes "addAccount A E implementation context s = (Inr a, s')"
  shows "\<exists>ctor account recs v.
           AccountImplementations A implementation = Some ctor
         \<and> account_init A (ctor \<lparr> p_provider = provider s, p_bundler = bundler s,
                p_entryPointAddress = entryPointAddress s, p_context = context,
                p_deserializeState = None \<rparr>) = Some account
         \<and> getAccountAddress A account = Some a
         \<and> keyrings s' = AList.update a account (keyrings s)
         \<and> map_of (keyrings s') a = Some account
         \<and> length recs = length (keyrings s')
         \<and> list_all2 (\<lambda>r keyring. getAccountAddress A keyring = Some (address r)
                          \<and> serialize A keyring = Some (data r)) recs (map snd (keyrings s'))
         \<and> encryptsTo E s recs v
         \<and> calls s' = calls s @ encryptCalls s recs
                        @ [VaultUpdate v (encryptionKey s') (encryptionSalt s')]"
proof -
  from assms obtain ctor account addr s1 where
      ctor: "AccountImplementations A implementation = Some ctor"
    and made: "account_init A (ctor \<lparr> p_provider = provider s, p_bundler = bundler s,
                p_entryPointAddress = entryPointAddress s, p_context = context,
                p_deserializeState = None \<rparr>) = Some account"
    and acc: "getAccountAddress A account = Some addr"
    and per: "persistAllKeyrings A E (s\<lparr> keyrings := AList.update addr account (keyrings s) \<rparr>) = (Inr (), s1)"
    and res: "a = addr" "s' = s1"
    by (auto simp add: addAccount_def split: option.splits if_splits sum.splits prod.splits)
  from persistAllKeyrings_success [OF per] obtain recs v where
      ser: "serializeKeyrings A (map snd (AList.update addr account (keyrings s))) = Inr recs"
    and keep: "keyrings s1 = AList.update addr account (keyrings s)"
    and enc: "encryptsTo E s recs v"
    and tr: "calls s1 = calls s @ encryptCalls s recs
                        @ [VaultUpdate v (encryptionKey s1) (encryptionSalt s1)]"
    by auto
  have all2: "list_all2 (\<lambda>r keyring. getAccountAddress A keyring = Some (address r)
                          \<and> serialize A keyring = Some (data r)) recs (map snd (keyrings s1))"
    using serializeKeyrings_records [OF ser] keep
    by (auto elim: list_all2_mono)
  have reg: "map_of (keyrings s1) addr = Some account"
    by (simp add: keep update_conv')
  have len: "length recs = length (keyrings s1)"
    using all2 by (simp add: list_all2_lengthD)
  from ctor made acc keep reg len all2 enc tr res show ?thesis by blast
qed

lemmas demo_persist_defs =
  persistAllKeyrings_def serializeKeyring_def demoAccounts_def demoEncryptor_def
  demoService_def demoKeyService_def demoAddress_def demoRecordAA_def demoRecordCC_def
  demoVault_def demoKeyring_def demoKeyringCC_def truthy_def orEmpty_def JSON_parse_def
  JSON_stringify_def

text \<open>
  Adding the account \<open>cc\<close> to the registry that holds \<open>aa\<close>, once with the password and once
  with the key only: both records are encrypted and dispatched.
\<close>

theorem addAccount_persists_whole_registry_witness:
  "addAccount demoAccounts demoEncryptor ''simple'' (Some ''cc'') demoService
     = (Inr ''0xcc'', demoService\<lparr>
          keyrings := [(''0xaa'', demoKeyring), (''0xcc'', demoKeyringCC)],
          encryptionKey := Some ''terces'', encryptionSalt := Some ''salt-1'',
          calls := [EncryptWithDetail ''secret'' [demoRecordAA, demoRecordCC],
                    VaultUpdate (demoVault [demoRecordAA, demoRecordCC] ''salt-1'')
                      (Some ''terces'') (Some ''salt-1'')] \<rparr>)
   \<and> encryptsTo demoEncryptor demoService [demoRecordAA, demoRecordCC]
         (demoVault [demoRecordAA, demoRecordCC] ''salt-1'')
   \<and> addAccount demoAccounts demoEncryptor ''simple'' (Some ''cc'') demoKeyService
     = (Inr ''0xcc'', demoKeyService\<lparr>
          keyrings := [(''0xaa'', demoKeyring), (''0xcc'', demoKeyringCC)],
          calls := [ImportKey ''terces'', EncryptWithKey [demoRecordAA, demoRecordCC],
                    VaultUpdate (demoVault [demoRecordAA, demoRecordCC] ''salt-0'')
                      (Some ''terces'') (Some ''salt-0'')] \<rparr>)
   \<and> encryptsTo demoEncryptor demoKeyService [demoRecordAA, demoRecordCC]
         (demoVault [demoRecordAA, demoRecordCC] ''salt-0'')"
proof -
  have run1: "addAccount demoAccounts demoEncryptor ''simple'' (Some ''cc'') demoService
     = (Inr ''0xcc'', demoService\<lparr>
          keyrings := [(''0xaa'', demoKeyring), (''0xcc'', demoKeyringCC)],
          encryptionKey := Some ''terces'', encryptionSalt := Some ''salt-1'',
          calls := [EncryptWithDetail ''secret'' [demoRecordAA, demoRecordCC],
                    VaultUpdate (demoVault [demoRecordAA, demoRecordCC] ''salt-1'')
                      (Some ''terces'') (Some ''salt-1'')] \<rparr>)"
    by (simp add: addAccount_def demo_persist_defs demoCtor_def AddressZero_def)
  have run2: "addAccount demoAccounts demoEncryptor ''simple'' (Some ''cc'') demoKeyService
     = (Inr ''0xcc'', demoKeyService\<lparr>
          keyrings := [(''0xaa'', demoKeyring), (''0xcc'', demoKeyringCC)],
          calls := [ImportKey ''terces'', EncryptWithKey [demoRecordAA, demoRecordCC],
                    VaultUpdate (demoVault [demoRecordAA, demoRecordCC] ''salt-0'')
                      (Some ''terces'') (Some ''salt-0'')] \<rparr>)"
    by (simp add: addAccount_def demo_persist_defs demoCtor_def AddressZero_def)
  have e1: "encryptsTo demoEncryptor demoService [demoRecordAA, demoRecordCC]
         (demoVault [demoRecordAA, demoRecordCC] ''salt-1'')"
    using addAccount_persists_whole_registry [OF run1]
    by (auto simp add: encryptCalls_def demoService_def truthy_def orEmpty_def)
  have e2: "encryptsTo demoEncryptor demoKeyService [demoRecordAA, demoRecordCC]
         (demoVault [demoRecordAA, demoRecordCC] ''salt-0'')"
    using addAccount_persists_whole_registry [OF run2]
    by (auto simp add: encryptCalls_def demoService_def demoKeyService_def truthy_def
          orEmpty_def)
  from run1 e1 run2 e2 show ?thesis by blast
qed

section \<open>The type tag of persisted records\<close>








section \<open>Building an unsigned user operation\<close>

lemma BigNumber_from_JsBigNumber [simp]: "BigNumber_from (JsBigNumber b) = Some b"
  by (simp add: BigNumber_from_def)

lemma toBN_of_from: "BigNumber_from v = Some b \<Longrightarrow> toBN (JsBigNumber b) = toBN v"
  by (simp add: toBN_def)

lemma normalizeUserOp_success:
  assumes "BigNumber_from (nonce p) = Some n"
    and "BigNumber_from (callGasLimit p) = Some c"
    and "BigNumber_from (verificationGasLimit p) = Some v"
    and "BigNumber_from (preVerificationGas p) = Some pv"
    and "BigNumber_from (maxFeePerGas p) = Some mf"
    and "BigNumber_from (maxPriorityFeePerGas p) = Some mp"
  shows "normalizeUserOp p =
           Inr (p\<lparr> nonce := JsString (toHexString n),
                  callGasLimit := JsString (toHexString c),
                  verificationGasLimit := JsString (toHexString v),
                  preVerificationGas := JsString (toHexString pv),
                  maxFeePerGas := JsString (toHexString mf),
                  maxPriorityFeePerGas := JsString (toHexString mp) \<rparr>)"
  using assms by (simp add: normalizeUserOp_def)

lemma mergeGas_max:
  assumes "toBN current = Some f"
    and "toBN (JsBigNumber e) = Some ev"
    and "toBN (JsString (toHexString e)) = Some ev"
  shows "mergeGas current e
           = Inr (if f < ev then JsString (toHexString e) else current)
         \<and> toBN (if f < ev then JsString (toHexString e) else current) = Some (max f ev)"
proof -
  from assms(1) obtain cur where
      cur: "BigNumber_from current = Some cur" and f: "toBN (JsBigNumber cur) = Some f"
    by (auto simp add: toBN_def split: option.splits)
  have "gt e (JsBigNumber cur) = Some (f < ev)"
    using assms(2) f by (simp add: gt_def)
  then show ?thesis
    using cur assms by (simp add: mergeGas_def max_def)
qed

lemma mergeGasParameters_success:
  assumes "toBN (callGasLimit F) = Some fc"
    and "toBN (verificationGasLimit F) = Some fv"
    and "toBN (preVerificationGas F) = Some fp"
    and "BigNumber_from (est_callGasLimit G) = Some bc"
    and "BigNumber_from (est_verificationGasLimit G) = Some bv"
    and "BigNumber_from (est_preVerificationGas G) = Some bp"
    and "toBN (est_callGasLimit G) = Some ec"
    and "toBN (est_verificationGasLimit G) = Some ev"
    and "toBN (est_preVerificationGas G) = Some ep"
    and "toBN (JsString (toHexString bc)) = Some ec"
    and "toBN (JsString (toHexString bv)) = Some ev"
    and "toBN (JsString (toHexString bp)) = Some ep"
  shows "mergeGasParameters F (Some G) =
           Inr (F\<lparr> callGasLimit := (if fc < ec then JsString (toHexString bc) else callGasLimit F),
                  verificationGasLimit :=
                    (if fv < ev then JsString (toHexString bv) else verificationGasLimit F),
                  preVerificationGas :=
                    (if fp < ep then JsString (toHexString bp) else preVerificationGas F) \<rparr>)"
proof -
  have ec': "toBN (JsBigNumber bc) = Some ec" using assms(4) assms(7) by (simp add: toBN_of_from)
  have ev': "toBN (JsBigNumber bv) = Some ev" using assms(5) assms(8) by (simp add: toBN_of_from)
  have ep': "toBN (JsBigNumber bp) = Some ep" using assms(6) assms(9) by (simp add: toBN_of_from)
  show ?thesis
    using assms(4-6) mergeGas_max [OF assms(1) ec' assms(10)]
      mergeGas_max [OF assms(2) ev' assms(11)] mergeGas_max [OF assms(3) ep' assms(12)]
    by (simp add: mergeGasParameters_def)
qed

lemma estimateWithBundler_success:
  assumes "bundler s = Some b"
    and "signUserOp A keyring F = Some signed"
    and "estimateUserOpGas N b signed = Some G"
  shows "estimateWithBundler A N keyring F s
           = (Inr (Some G), s\<lparr> calls := calls s @ [SignUserOp F, EstimateUserOpGas signed] \<rparr>)"
  using assms by (simp add: estimateWithBundler_def)

text \<open>
  C1. \<open>F\<close> is the provisional operation after normalization and \<open>G\<close> the estimate the
  bundler returns; \<open>fc\<close>, \<open>fv\<close>, \<open>fp\<close> and \<open>ec\<close>, \<open>ev\<close>, \<open>ep\<close> are the integers of their
  three gas fields, \<open>bc\<close>, \<open>bv\<close>, \<open>bp\<close> are the objects that \<^verbatim>\<open>BigNumber.from\<close> makes of the
  estimates, and the hexadecimal string of each estimate reads back as that estimate.
  Then \<open>createUnsignedUserOp\<close> returns an operation whose \<open>callGasLimit\<close>,
  \<open>verificationGasLimit\<close> and \<open>preVerificationGas\<close> denote \<open>max fc ec\<close>, \<open>max fv ev\<close> and
  \<open>max fp ep\<close>: the relay's value where it is strictly greater, the floor as it stands
  otherwise. The nonce, the two fee fields and every other field are those of \<open>F\<close>.
\<close>

theorem createUnsignedUserOp_gas_merge:
  assumes keyring: "map_of (keyrings s) addr = Some keyring"
    and details: "transactionDetails transaction = Inr details"
    and provisional: "createUnsignedUserOpWithContext A keyring details context = Some provisional"
    and normalized: "normalizeUserOp provisional = Inr F"
    and b: "bundler s = Some b"
    and signed: "signUserOp A keyring F = Some signed"
    and estimate: "estimateUserOpGas N b signed = Some G"
    and fc: "toBN (callGasLimit F) = Some fc"
    and fv: "toBN (verificationGasLimit F) = Some fv"
    and fp: "toBN (preVerificationGas F) = Some fp"
    and bc: "BigNumber_from (est_callGasLimit G) = Some bc"
    and bv: "BigNumber_from (est_verificationGasLimit G) = Some bv"
    and bp: "BigNumber_from (est_preVerificationGas G) = Some bp"
    and ec: "toBN (est_callGasLimit G) = Some ec"
    and ev: "toBN (est_verificationGasLimit G) = Some ev"
    and ep: "toBN (est_preVerificationGas G) = Some ep"
    and rc: "toBN (JsString (toHexString bc)) = Some ec"
    and rv: "toBN (JsString (toHexString bv)) = Some ev"
    and rp: "toBN (JsString (toHexString bp)) = Some ep"
  shows "\<exists>result s'.
           createUnsignedUserOp A N addr transaction context s = (Inr result, s')
         \<and> toBN (callGasLimit result) = Some (max fc ec)
         \<and> toBN (verificationGasLimit result) = Some (max fv ev)
         \<and> toBN (preVerificationGas result) = Some (max fp ep)
         \<and> callGasLimit result
             = (if fc < ec then JsString (toHexString bc) else callGasLimit F)
         \<and> verificationGasLimit result
             = (if fv < ev then JsString (toHexString bv) else verificationGasLimit F)
         \<and> preVerificationGas result
             = (if fp < ep then JsString (toHexString bp) else preVerificationGas F)
         \<and> nonce result = nonce F
         \<and> maxFeePerGas result = maxFeePerGas F
         \<and> maxPriorityFeePerGas result = maxPriorityFeePerGas F
         \<and> result\<lparr> callGasLimit := callGasLimit F,
                    verificationGasLimit := verificationGasLimit F,
                    preVerificationGas := preVerificationGas F \<rparr> = F"
proof -
  let ?result = "F\<lparr> callGasLimit := (if fc < ec then JsString (toHexString bc) else callGasLimit F),
                  verificationGasLimit :=
                    (if fv < ev then JsString (toHexString bv) else verificationGasLimit F),
                  preVerificationGas :=
                    (if fp < ep then JsString (toHexString bp) else preVerificationGas F) \<rparr>"
  have ec': "toBN (JsBigNumber bc) = Some ec" using bc ec by (simp add: toBN_of_from)
  have ev': "toBN (JsBigNumber bv) = Some ev" using bv ev by (simp add: toBN_of_from)
  have ep': "toBN (JsBigNumber bp) = Some ep" using bp ep by (simp add: toBN_of_from)
  have run: "createUnsignedUserOp A N addr transaction context s
          = (Inr ?result, s\<lparr> calls := calls s @ [SignUserOp F, EstimateUserOpGas signed] \<rparr>)"
    by (simp add: createUnsignedUserOp_def keyring details provisional normalized
          estimateWithBundler_success [OF b signed estimate]
          mergeGasParameters_success [OF fc fv fp bc bv bp ec ev ep rc rv rp])
  have mc: "toBN (callGasLimit ?result) = Some (max fc ec)"
    using mergeGas_max [OF fc ec' rc] by simp
  have mv: "toBN (verificationGasLimit ?result) = Some (max fv ev)"
    using mergeGas_max [OF fv ev' rv] by simp
  have mp: "toBN (preVerificationGas ?result) = Some (max fp ep)"
    using mergeGas_max [OF fp ep' rp] by simp
  have rest: "?result\<lparr> callGasLimit := callGasLimit F,
                    verificationGasLimit := verificationGasLimit F,
                    preVerificationGas := preVerificationGas F \<rparr> = F"
    by simp
  show ?thesis
    apply (rule exI [of _ ?result])
    apply (rule exI [of _ "s\<lparr> calls := calls s @ [SignUserOp F, EstimateUserOpGas signed] \<rparr>"])
    apply (intro conjI)
              apply (rule run)
             apply (rule mc)
            apply (rule mv)
           apply (rule mp)
          apply simp
         apply simp
        apply simp
       apply simp
      apply simp
     apply simp
    apply (rule rest)
    done
qed

text \<open>Unfolding the library on concrete numbers.\<close>

lemmas ethers_defs =
  BigNumber_from_def toBN_def gt_def toHex_def toHexUnsigned_def trimZeroPairs.simps
  isHexNumberString_def isDecimalString_def unsignedPart_def isHexDigit_def isDigit_def
  isLowerHexLetter_def isUpperHexLetter_def BN_ofDecimal_def BN_toString16_def
  hexOfNat.simps hexDigit_def digitValue_def MAX_SAFE_def

text \<open>The run of \<open>createUnsignedUserOp\<close> in the concrete environment, step by step.\<close>

lemma demo_keyring: "map_of (keyrings demoService) ''0xaa'' = Some demoKeyring"
  by (simp add: demoService_def demoKeyring_def)

lemma demo_details: "transactionDetails demoTransaction = Inr demoDetails"
  by (simp add: transactionDetails_def demoTransaction_def demoDetails_def truthy_def
        truthyNum_def)

lemma demo_provisional:
  "createUnsignedUserOpWithContext demoAccounts demoKeyring demoDetails None
     = Some (demoProvisional demoKeyring demoDetails)"
  by (simp add: demoAccounts_def)

lemma demo_normalized:
  "normalizeUserOp (demoProvisional demoKeyring demoDetails) = Inr demoNormalized"
  by (simp add: normalizeUserOp_def demoProvisional_def demoAddress_def demoKeyring_def
        demoDetails_def demoNormalized_def ethers_defs)

lemma demo_bundler: "bundler demoService = Some (HttpRpcClient ''http://bundler'' ''0xentry'' 1)"
  by (simp add: demoService_def)

lemma demo_signed:
  "signUserOp demoAccounts demoKeyring demoNormalized
     = Some (demoNormalized\<lparr> signature := ''signed-by-aa'' \<rparr>)"
  by (simp add: demoAccounts_def demoKeyring_def)

lemma demo_estimate:
  "estimateUserOpGas demoNetwork (HttpRpcClient ''http://bundler'' ''0xentry'' 1)
     (demoNormalized\<lparr> signature := ''signed-by-aa'' \<rparr>) = Some demoGasParameters"
  by (simp add: demoNetwork_def demoGasParameters_def)

text \<open>
  In the concrete environment the call gas limit is raised to the estimate, the
  verification gas limit stays above it, and the pre-verification gas equals it and stays
  as it is written.
\<close>

theorem createUnsignedUserOp_gas_merge_witness:
  "\<exists>result s'.
      createUnsignedUserOp demoAccounts demoNetwork ''0xaa'' demoTransaction None
        demoService = (Inr result, s')
    \<and> toBN (callGasLimit result) = Some 40000
    \<and> toBN (verificationGasLimit result) = Some 100000
    \<and> toBN (preVerificationGas result) = Some 46856
    \<and> callGasLimit result = JsString ''0x9c40''
    \<and> verificationGasLimit result = JsString ''0x0186a0''
    \<and> preVerificationGas result = JsString ''0xB708''
    \<and> nonce result = JsString ''0x07''
    \<and> maxFeePerGas result = JsString ''0x3b9a''
    \<and> maxPriorityFeePerGas result = JsString ''0x03e8''"
proof -
  have fc: "toBN (callGasLimit demoNormalized) = Some 35000"
    by (simp add: demoNormalized_def ethers_defs)
  have fv: "toBN (verificationGasLimit demoNormalized) = Some 100000"
    by (simp add: demoNormalized_def ethers_defs)
  have fp: "toBN (preVerificationGas demoNormalized) = Some 46856"
    by (simp add: demoNormalized_def ethers_defs)
  have bc: "BigNumber_from (est_callGasLimit demoGasParameters) = Some (BigNumber ''0x9c40'')"
    by (simp add: demoGasParameters_def ethers_defs)
  have bv: "BigNumber_from (est_verificationGasLimit demoGasParameters) = Some (BigNumber ''0xc350'')"
    by (simp add: demoGasParameters_def ethers_defs)
  have bp: "BigNumber_from (est_preVerificationGas demoGasParameters) = Some (BigNumber ''0xb708'')"
    by (simp add: demoGasParameters_def ethers_defs)
  have ec: "toBN (est_callGasLimit demoGasParameters) = Some 40000"
    by (simp add: demoGasParameters_def ethers_defs)
  have ev: "toBN (est_verificationGasLimit demoGasParameters) = Some 50000"
    by (simp add: demoGasParameters_def ethers_defs)
  have ep: "toBN (est_preVerificationGas demoGasParameters) = Some 46856"
    by (simp add: demoGasParameters_def ethers_defs)
  have rc: "toBN (JsString (toHexString (BigNumber ''0x9c40''))) = Some 40000"
    by (simp add: ethers_defs)
  have rv: "toBN (JsString (toHexString (BigNumber ''0xc350''))) = Some 50000"
    by (simp add: ethers_defs)
  have rp: "toBN (JsString (toHexString (BigNumber ''0xb708''))) = Some 46856"
    by (simp add: ethers_defs)
  from createUnsignedUserOp_gas_merge
         [OF demo_keyring demo_details demo_provisional demo_normalized demo_bundler
             demo_signed demo_estimate fc fv fp bc bv bp ec ev ep rc rv rp]
  show ?thesis
    by (simp add: demoNormalized_def) blast
qed

section \<open>The estimation request\<close>

lemma createUnsignedUserOp_trace:
  assumes "map_of (keyrings s) addr = Some keyring"
    and "transactionDetails transaction = Inr details"
    and "createUnsignedUserOpWithContext A keyring details context = Some provisional"
    and "normalizeUserOp provisional = Inr F"
    and "bundler s = Some b"
  shows "(signUserOp A keyring F = None \<longrightarrow>
            createUnsignedUserOp A N addr transaction context s
              = (Inl (Thrown ''signUserOp''), s\<lparr> calls := calls s @ [SignUserOp F] \<rparr>))
         \<and> (\<forall>signed. signUserOp A keyring F = Some signed \<longrightarrow>
               calls (snd (createUnsignedUserOp A N addr transaction context s))
                 = calls s @ [SignUserOp F, EstimateUserOpGas signed])"
  using assms
  by (auto simp add: createUnsignedUserOp_def estimateWithBundler_def
        split: option.splits sum.splits)

text \<open>
  In the concrete environment the account signs with its owner's state. The trace of
  \<open>createUnsignedUserOp\<close> shows the call of the account's \<open>signUserOp\<close> on the operation
  being estimated, and the request sent to the bundler carries the signature that call
  returned.
\<close>

theorem estimate_request_signature_counterexample:
  "calls (snd (createUnsignedUserOp demoAccounts demoNetwork ''0xaa'' demoTransaction
                 None demoService))
     = [SignUserOp demoNormalized,
        EstimateUserOpGas (demoNormalized\<lparr> signature := ''signed-by-aa'' \<rparr>)]
   \<and> signUserOp demoAccounts demoKeyring demoNormalized
        = Some (demoNormalized\<lparr> signature := ''signed-by-aa'' \<rparr>)"
  using createUnsignedUserOp_trace
          [OF demo_keyring demo_details demo_provisional demo_normalized demo_bundler,
           of demoNetwork]
        demo_signed
  by (simp add: demoService_def)

text \<open>
  C2, amended. With a keyring at the address, a bundler, and a provisional operation that
  normalizes to \<open>F\<close>: \<open>createUnsignedUserOp\<close> calls the account's \<open>signUserOp\<close> on \<open>F\<close> and
  sends to \<open>estimateUserOpGas\<close> the operation that this call returns; these are the two
  calls it makes. If \<open>signUserOp\<close> fails, \<open>createUnsignedUserOp\<close> fails with it and no
  estimate is requested.
\<close>

theorem estimate_request_is_signed_by_account:
  assumes "map_of (keyrings s) addr = Some keyring"
    and "transactionDetails transaction = Inr details"
    and "createUnsignedUserOpWithContext A keyring details context = Some provisional"
    and "normalizeUserOp provisional = Inr F"
    and "bundler s = Some b"
  shows "(signUserOp A keyring F = None \<longrightarrow>
            createUnsignedUserOp A N addr transaction context s
              = (Inl (Thrown ''signUserOp''), s\<lparr> calls := calls s @ [SignUserOp F] \<rparr>))
         \<and> (\<forall>signed. signUserOp A keyring F = Some signed \<longrightarrow>
               calls (snd (createUnsignedUserOp A N addr transaction context s))
                 = calls s @ [SignUserOp F, EstimateUserOpGas signed])"
  using assms by (rule createUnsignedUserOp_trace)

theorem estimate_request_is_signed_by_account_witness:
  "map_of (keyrings demoService) ''0xaa'' = Some demoKeyring
   \<and> transactionDetails demoTransaction = Inr demoDetails
   \<and> createUnsignedUserOpWithContext demoAccounts demoKeyring demoDetails None
        = Some (demoProvisional demoKeyring demoDetails)
   \<and> normalizeUserOp (demoProvisional demoKeyring demoDetails) = Inr demoNormalized
   \<and> bundler demoService = Some (HttpRpcClient ''http://bundler'' ''0xentry'' 1)
   \<and> calls (snd (createUnsignedUserOp demoAccounts demoNetwork ''0xaa''
                    demoTransaction None demoService))
        = calls demoService
            @ [SignUserOp demoNormalized,
               EstimateUserOpGas (demoNormalized\<lparr> signature := ''signed-by-aa'' \<rparr>)]"
  using estimate_request_is_signed_by_account
          [OF demo_keyring demo_details demo_provisional demo_normalized demo_bundler,
           of demoNetwork]
        demo_keyring demo_details demo_provisional demo_normalized demo_bundler demo_signed
  by blast

section \<open>Normalization of the numeric fields\<close>

text \<open>
  What \<^verbatim>\<open>BigNumber.from\<close> makes of a number, of a decimal string and of a hexadecimal
  string in lower case: the canonical string of the integer.
\<close>

lemma natOfDigits_append:
  "natOfDigits base (xs @ ys) acc
     = (case natOfDigits base xs acc of None \<Rightarrow> None | Some a \<Rightarrow> natOfDigits base ys a)"
  by (induction xs arbitrary: acc) (auto split: option.splits)

lemma digitValue_hexDigit: "d < 16 \<Longrightarrow> digitValue 16 (hexDigit d) = Some d"
proof -
  assume "d < 16"
  then have "d = 0 \<or> d = 1 \<or> d = 2 \<or> d = 3 \<or> d = 4 \<or> d = 5 \<or> d = 6 \<or> d = 7 \<or> d = 8
      \<or> d = 9 \<or> d = 10 \<or> d = 11 \<or> d = 12 \<or> d = 13 \<or> d = 14 \<or> d = 15" by arith
  then show ?thesis
    by (auto simp add: hexDigit_def digitValue_def)
qed

lemma lowerHex_digit:
  assumes "isDigit c \<or> isLowerHexLetter c"
  shows "\<exists>d<16. digitValue 16 c = Some d \<and> hexDigit d = c"
proof -
  define k where "k = (of_char c :: nat)"
  have inj: "\<And>x. k = of_char x \<Longrightarrow> c = x" unfolding k_def by simp
  from assms have "k = 48 \<or> k = 49 \<or> k = 50 \<or> k = 51 \<or> k = 52 \<or> k = 53 \<or> k = 54 \<or> k = 55
      \<or> k = 56 \<or> k = 57 \<or> k = 97 \<or> k = 98 \<or> k = 99 \<or> k = 100 \<or> k = 101 \<or> k = 102"
    unfolding isDigit_def isLowerHexLetter_def k_def [symmetric] by arith
  then show ?thesis
  proof (elim disjE)
    assume "k = 48"
    then have "c = CHR ''0''" by (intro inj) simp
    then show ?thesis
      by (intro exI [of _ 0]) (simp add: hexDigit_def digitValue_def)
  next
    assume "k = 49"
    then have "c = CHR ''1''" by (intro inj) simp
    then show ?thesis
      by (intro exI [of _ 1]) (simp add: hexDigit_def digitValue_def)
  next
    assume "k = 50"
    then have "c = CHR ''2''" by (intro inj) simp
    then show ?thesis
      by (intro exI [of _ 2]) (simp add: hexDigit_def digitValue_def)
  next
    assume "k = 51"
    then have "c = CHR ''3''" by (intro inj) simp
    then show ?thesis
      by (intro exI [of _ 3]) (simp add: hexDigit_def digitValue_def)
  next
    assume "k = 52"
    then have "c = CHR ''4''" by (intro inj) simp
    then show ?thesis
      by (intro exI [of _ 4]) (simp add: hexDigit_def digitValue_def)
  next
    assume "k = 53"
    then have "c = CHR ''5''" by (intro inj) simp
    then show ?thesis
      by (intro exI [of _ 5]) (simp add: hexDigit_def digitValue_def)
  next
    assume "k = 54"
    then have "c = CHR ''6''" by (intro inj) simp
    then show ?thesis
      by (intro exI [of _ 6]) (simp add: hexDigit_def digitValue_def)
  next
    assume "k = 55"
    then have "c = CHR ''7''" by (intro inj) simp
    then show ?thesis
      by (intro exI [of _ 7]) (simp add: hexDigit_def digitValue_def)
  next
    assume "k = 56"
    then have "c = CHR ''8''" by (intro inj) simp
    then show ?thesis
      by (intro exI [of _ 8]) (simp add: hexDigit_def digitValue_def)
  next
    assume "k = 57"
    then have "c = CHR ''9''" by (intro inj) simp
    then show ?thesis
      by (intro exI [of _ 9]) (simp add: hexDigit_def digitValue_def)
  next
    assume "k = 97"
    then have "c = CHR ''a''" by (intro inj) simp
    then show ?thesis
      by (intro exI [of _ 10]) (simp add: hexDigit_def digitValue_def)
  next
    assume "k = 98"
    then have "c = CHR ''b''" by (intro inj) simp
    then show ?thesis
      by (intro exI [of _ 11]) (simp add: hexDigit_def digitValue_def)
  next
    assume "k = 99"
    then have "c = CHR ''c''" by (intro inj) simp
    then show ?thesis
      by (intro exI [of _ 12]) (simp add: hexDigit_def digitValue_def)
  next
    assume "k = 100"
    then have "c = CHR ''d''" by (intro inj) simp
    then show ?thesis
      by (intro exI [of _ 13]) (simp add: hexDigit_def digitValue_def)
  next
    assume "k = 101"
    then have "c = CHR ''e''" by (intro inj) simp
    then show ?thesis
      by (intro exI [of _ 14]) (simp add: hexDigit_def digitValue_def)
  next
    assume "k = 102"
    then have "c = CHR ''f''" by (intro inj) simp
    then show ?thesis
      by (intro exI [of _ 15]) (simp add: hexDigit_def digitValue_def)
  qed
qed

lemma digit_value10:
  assumes "isDigit c"
  shows "\<exists>d. digitValue 10 c = Some d"
  using assms by (auto simp add: isDigit_def digitValue_def Let_def)

lemma natOfDigits_hexOfNat: "natOfDigits 16 (hexOfNat k) 0 = Some k"
proof (induction k rule: hexOfNat.induct)
  case (1 n)
  show ?case
  proof (cases "n < 16")
    case True
    then show ?thesis by (simp add: hexOfNat.simps [of n] digitValue_hexDigit)
  next
    case False
    then have "natOfDigits 16 (hexOfNat (n div 16)) 0 = Some (n div 16)" using 1 by simp
    then show ?thesis using False
      by (simp add: hexOfNat.simps [of n] natOfDigits_append digitValue_hexDigit)
  qed
qed

lemma hexOfNat_not_Nil [simp]: "hexOfNat k \<noteq> []"
  by (subst hexOfNat.simps) simp

lemma hexDigit_not_zero: "0 < d \<Longrightarrow> d < 16 \<Longrightarrow> hexDigit d \<noteq> CHR ''0''"
proof -
  assume "0 < d" "d < 16"
  then have "d = 1 \<or> d = 2 \<or> d = 3 \<or> d = 4 \<or> d = 5 \<or> d = 6 \<or> d = 7 \<or> d = 8
      \<or> d = 9 \<or> d = 10 \<or> d = 11 \<or> d = 12 \<or> d = 13 \<or> d = 14 \<or> d = 15" by arith
  then show ?thesis by (auto simp add: hexDigit_def)
qed

lemma hd_hexOfNat: "0 < k \<Longrightarrow> hd (hexOfNat k) \<noteq> CHR ''0''"
proof (induction k rule: hexOfNat.induct)
  case (1 n)
  show ?case
  proof (cases "n < 16")
    case True
    then show ?thesis using 1(2) by (simp add: hexOfNat.simps [of n] hexDigit_not_zero)
  next
    case False
    then have "hd (hexOfNat (n div 16)) \<noteq> CHR ''0''" using 1 by simp
    then show ?thesis using False by (simp add: hexOfNat.simps [of n])
  qed
qed

lemma natOfDigits_no_prefix:
  assumes "natOfDigits 16 s 0 = Some k"
  shows "take 2 s \<noteq> ''0x'' \<and> take 1 s \<noteq> ''-''"
proof (cases s)
  case Nil
  then show ?thesis by simp
next
  case (Cons a t)
  show ?thesis
  proof (cases t)
    case Nil
    then show ?thesis using assms Cons by (auto simp add: digitValue_def)
  next
    case (Cons b u)
    then show ?thesis using assms \<open>s = a # t\<close>
      by (auto simp add: digitValue_def split: option.splits)
  qed
qed

lemma hexOfNat_zero: "hexOfNat 0 = ''0''"
  by (simp add: hexOfNat.simps hexDigit_def)

lemma trimZeroPairs_id: "\<not> (4 < length v \<and> take 4 v = ''0x00'') \<Longrightarrow> trimZeroPairs v = v"
  by (subst trimZeroPairs.simps) auto

lemma trimZeroPairs_canonical:
  "trimZeroPairs (''0x'' @ evenLength (hexOfNat k)) = ''0x'' @ evenLength (hexOfNat k)"
proof (cases "k = 0")
  case True
  then show ?thesis by (simp add: hexOfNat_zero evenLength_def trimZeroPairs_id)
next
  case False
  then have hd: "hd (hexOfNat k) \<noteq> CHR ''0''" by (simp add: hd_hexOfNat)
  obtain a t where h: "hexOfNat k = a # t" by (cases "hexOfNat k") simp_all
  with hd have a: "a \<noteq> CHR ''0''" by simp
  show ?thesis
  proof (cases t)
    case Nil
    then show ?thesis using h a by (simp add: evenLength_def trimZeroPairs_id)
  next
    case (Cons b u)
    then show ?thesis using h a by (simp add: evenLength_def trimZeroPairs_id)
  qed
qed

lemma toHexUnsigned_hexOfNat:
  "toHexUnsigned (hexOfNat k) = ''0x'' @ evenLength (hexOfNat k)"
proof -
  have "take 2 (hexOfNat k) \<noteq> ''0x''"
    using natOfDigits_no_prefix [OF natOfDigits_hexOfNat [of k]] by simp
  then have "toHexUnsigned (hexOfNat k)
      = trimZeroPairs (if odd (length (hexOfNat k)) then ''0x0'' @ hexOfNat k
                       else ''0x'' @ hexOfNat k)"
    by (simp add: toHexUnsigned_def)
  also have "\<dots> = trimZeroPairs (''0x'' @ evenLength (hexOfNat k))"
    by (simp add: evenLength_def)
  finally show ?thesis by (simp only: trimZeroPairs_canonical)
qed

lemma evenLength_is_zero: "evenLength (hexOfNat k) = ''00'' \<longleftrightarrow> k = 0"
proof
  assume e: "evenLength (hexOfNat k) = ''00''"
  show "k = 0"
  proof (rule ccontr)
    assume "k \<noteq> 0"
    then have hd: "hd (hexOfNat k) \<noteq> CHR ''0''" by (simp add: hd_hexOfNat)
    obtain a t where h: "hexOfNat k = a # t" by (cases "hexOfNat k") simp_all
    with hd have "a \<noteq> CHR ''0''" by simp
    with e h show False by (auto simp add: evenLength_def split: if_splits)
  qed
next
  assume "k = 0"
  then show "evenLength (hexOfNat k) = ''00''" by (simp add: hexOfNat_zero evenLength_def)
qed

lemma toHex_signed:
  assumes "toHexUnsigned body = ''0x'' @ evenLength (hexOfNat k)"
    and "take 1 body \<noteq> ''-''"
  shows "toHex body = Some (canonicalHex (int k))"
    and "toHex (''-'' @ body) = Some (canonicalHex (- int k))"
proof -
  show "toHex body = Some (canonicalHex (int k))"
    using assms by (simp add: toHex_def canonicalHex_def)
  show "toHex (''-'' @ body) = Some (canonicalHex (- int k))"
  proof (cases "k = 0")
    case True
    then show ?thesis using assms
      by (simp add: toHex_def canonicalHex_def hexOfNat_zero evenLength_def)
  next
    case False
    then have "evenLength (hexOfNat k) \<noteq> ''00''" by (simp add: evenLength_is_zero)
    then show ?thesis using assms False
      by (simp add: toHex_def canonicalHex_def)
  qed
qed

lemma hexOfNat_no_minus: "take 1 (hexOfNat k) \<noteq> ''-''"
  using natOfDigits_no_prefix [OF natOfDigits_hexOfNat [of k]] by simp

lemma toHex_toString16: "toHex (BN_toString16 m) = Some (canonicalHex m)"
proof (cases "m < 0")
  case True
  then have "BN_toString16 m = ''-'' @ hexOfNat (nat (- m))" by (simp add: BN_toString16_def)
  moreover have "toHex (''-'' @ hexOfNat (nat (- m))) = Some (canonicalHex (- int (nat (- m))))"
    by (rule toHex_signed(2) [OF toHexUnsigned_hexOfNat hexOfNat_no_minus])
  ultimately show ?thesis using True by simp
next
  case False
  then have "BN_toString16 m = hexOfNat (nat m)" by (simp add: BN_toString16_def)
  moreover have "toHex (hexOfNat (nat m)) = Some (canonicalHex (int (nat m)))"
    by (rule toHex_signed(1) [OF toHexUnsigned_hexOfNat hexOfNat_no_minus])
  ultimately show ?thesis using False by simp
qed

lemma natOfDigits_evenLength:
  "natOfDigits 16 (evenLength ds) 0 = natOfDigits 16 ds 0"
  by (simp add: evenLength_def digitValue_def)

lemma toBN_canonical: "toBN (JsBigNumber (BigNumber (canonicalHex m))) = Some m"
  by (simp add: toBN_def canonicalHex_def natOfDigits_evenLength natOfDigits_hexOfNat)

lemma lowerHex_value:
  assumes "ds \<noteq> []"
  shows "list_all (\<lambda>c. isDigit c \<or> isLowerHexLetter c) ds \<Longrightarrow> hd ds \<noteq> CHR ''0''
         \<Longrightarrow> \<exists>k>0. natOfDigits 16 ds 0 = Some k \<and> hexOfNat k = ds"
  using assms
proof (induction ds rule: rev_nonempty_induct)
  case (single x)
  then obtain d where d: "d < 16" "digitValue 16 x = Some d" "hexDigit d = x"
    using lowerHex_digit [of x] by auto
  have "hexDigit 0 = CHR ''0''" by (simp add: hexDigit_def)
  then have "d \<noteq> 0" using d(3) single(2) by (cases "d = 0") simp_all
  then show ?case using d by (intro exI [of _ d]) (simp add: hexOfNat.simps [of d])
next
  case (snoc x xs)
  then obtain k where k: "0 < k" "natOfDigits 16 xs 0 = Some k" "hexOfNat k = xs"
    by auto
  from snoc(3) obtain d where d: "d < 16" "digitValue 16 x = Some d" "hexDigit d = x"
    using lowerHex_digit [of x] by auto
  have "hexOfNat (16 * k + d) = hexOfNat k @ [hexDigit d]"
    using k(1) d(1) by (subst hexOfNat.simps) simp
  then show ?case using k d
    by (intro exI [of _ "16 * k + d"]) (simp add: natOfDigits_append)
qed

lemma lowerHex_total:
  "list_all (\<lambda>c. isDigit c \<or> isLowerHexLetter c) ds \<Longrightarrow> \<exists>k. natOfDigits 16 ds acc = Some k"
proof (induction ds arbitrary: acc)
  case Nil
  then show ?case by simp
next
  case (Cons c cs)
  then obtain d where "digitValue 16 c = Some d" using lowerHex_digit [of c] by auto
  then show ?case using Cons by simp
qed

lemma decimal_total:
  "list_all isDigit ds \<Longrightarrow> \<exists>k. natOfDigits 10 ds acc = Some k"
proof (induction ds arbitrary: acc)
  case Nil
  then show ?case by simp
next
  case (Cons c cs)
  then obtain d where "digitValue 10 c = Some d" using digit_value10 [of c] by auto
  then show ?case using Cons by simp
qed

lemma trimZeroPairs_lowerHex:
  "even (length es) \<Longrightarrow> es \<noteq> [] \<Longrightarrow> list_all (\<lambda>c. isDigit c \<or> isLowerHexLetter c) es
   \<Longrightarrow> natOfDigits 16 es 0 = Some k
   \<Longrightarrow> trimZeroPairs (''0x'' @ es) = ''0x'' @ evenLength (hexOfNat k)"
proof (induction es rule: length_induct)
  case (1 es)
  from 1(2,3) obtain a b rest where es: "es = a # b # rest"
    by (cases es; cases "tl es") auto
  show ?case
  proof (cases "a = CHR ''0''")
    case False
    then have id: "trimZeroPairs (''0x'' @ es) = ''0x'' @ es"
      by (simp add: es trimZeroPairs_id)
    from lowerHex_value [of es] 1(3,4) False es obtain k' where
      "natOfDigits 16 es 0 = Some k'" "hexOfNat k' = es" by auto
    with 1(5) have "hexOfNat k = es" by simp
    then show ?thesis using id 1(2) by (simp add: evenLength_def)
  next
    case a: True
    show ?thesis
    proof (cases "b = CHR ''0''")
      case False
      then have id: "trimZeroPairs (''0x'' @ es) = ''0x'' @ es"
        by (simp add: es trimZeroPairs_id)
      from lowerHex_value [of "b # rest"] 1(4) False es obtain k' where
        "natOfDigits 16 (b # rest) 0 = Some k'" "hexOfNat k' = b # rest" by auto
      moreover have "natOfDigits 16 es 0 = natOfDigits 16 (b # rest) 0"
        by (simp add: es a digitValue_def)
      ultimately have "hexOfNat k = b # rest" using 1(5) by simp
      then show ?thesis using id 1(2) es a by (simp add: evenLength_def)
    next
      case b: True
      have val: "natOfDigits 16 es 0 = natOfDigits 16 rest 0"
        by (simp add: es a b digitValue_def)
      show ?thesis
      proof (cases "rest = []")
        case True
        then have "k = 0" using val 1(5) by simp
        then show ?thesis using True es a b
          by (simp add: hexOfNat_zero evenLength_def trimZeroPairs_id)
      next
        case False
        have "trimZeroPairs (''0x'' @ es) = trimZeroPairs (''0x'' @ rest)"
          using False by (subst trimZeroPairs.simps) (simp add: es a b)
        moreover have "trimZeroPairs (''0x'' @ rest) = ''0x'' @ evenLength (hexOfNat k)"
          using 1(1) [rule_format, of rest] 1(2,4,5) False val by (simp add: es)
        ultimately show ?thesis by simp
      qed
    qed
  qed
qed

lemma toHexUnsigned_lowerHex:
  assumes "ds \<noteq> []"
    and "list_all (\<lambda>c. isDigit c \<or> isLowerHexLetter c) ds"
    and "natOfDigits 16 ds 0 = Some k"
  shows "toHexUnsigned (''0x'' @ ds) = ''0x'' @ evenLength (hexOfNat k)"
proof (cases "odd (length ds)")
  case True
  have zero: "isDigit CHR ''0''" by (simp add: isDigit_def)
  have "toHexUnsigned (''0x'' @ ds) = trimZeroPairs (''0x'' @ (CHR ''0'' # ds))"
    using True assms(1) by (simp add: toHexUnsigned_def)
  also have "\<dots> = ''0x'' @ evenLength (hexOfNat k)"
    using True assms zero
    by (intro trimZeroPairs_lowerHex) (simp_all add: digitValue_def)
  finally show ?thesis .
next
  case False
  have "toHexUnsigned (''0x'' @ ds) = trimZeroPairs (''0x'' @ ds)"
    using False assms(1) by (simp add: toHexUnsigned_def)
  also have "\<dots> = ''0x'' @ evenLength (hexOfNat k)"
    using False assms by (intro trimZeroPairs_lowerHex) simp_all
  finally show ?thesis .
qed

lemma digits_not_hex:
  assumes "list_all isDigit t"
  shows "take 2 t \<noteq> ''0x'' \<and> take 2 t \<noteq> ''0X''"
proof (cases t)
  case Nil
  then show ?thesis by simp
next
  case (Cons a u)
  then show ?thesis using assms by (cases u) (auto simp add: isDigit_def)
qed

lemma BigNumber_from_lowerHex:
  assumes "isLowerHexNumberString s"
  shows "\<exists>n. BigNumber_from (JsString s) = Some (BigNumber (canonicalHex n))"
proof -
  define ds where "ds = drop 2 (unsignedPart s)"
  from assms have u: "unsignedPart s = ''0x'' @ ds" and ne: "ds \<noteq> []"
    and low: "list_all (\<lambda>c. isDigit c \<or> isLowerHexLetter c) ds"
    unfolding isLowerHexNumberString_def ds_def
    by (metis append_take_drop_id, simp, simp)
  have "list_all isHexDigit ds"
    using low by (simp add: list_all_iff isHexDigit_def) blast
  then have hex: "isHexNumberString s"
    using u ne by (simp add: isHexNumberString_def)
  obtain k where k: "natOfDigits 16 ds 0 = Some k" using lowerHex_total [OF low] by auto
  have body: "toHexUnsigned (''0x'' @ ds) = ''0x'' @ evenLength (hexOfNat k)"
    by (rule toHexUnsigned_lowerHex [OF ne low k])
  have nm: "take 1 (''0x'' @ ds) \<noteq> ''-''" by simp
  show ?thesis
  proof (cases "take 1 s = ''-''")
    case True
    then have "s = ''-'' @ (''0x'' @ ds)"
      using u by (cases s) (simp_all add: unsignedPart_def)
    then have "toHex s = Some (canonicalHex (- int k))"
      using toHex_signed(2) [OF body nm] by simp
    then show ?thesis using hex by (auto simp add: BigNumber_from_def)
  next
    case False
    then have "s = ''0x'' @ ds" using u by (simp add: unsignedPart_def)
    then have "toHex s = Some (canonicalHex (int k))"
      using toHex_signed(1) [OF body nm] by simp
    then show ?thesis using hex by (auto simp add: BigNumber_from_def)
  qed
qed

lemma BigNumber_from_decimal:
  assumes "isDecimalString s" and "\<not> isHexNumberString s"
  shows "\<exists>n. BigNumber_from (JsString s) = Some (BigNumber (canonicalHex n))"
proof -
  from assms(1) have "list_all isDigit (unsignedPart s)" by (simp add: isDecimalString_def)
  then obtain n where "BN_ofDecimal s = Some n"
    using decimal_total [of "drop 1 s" 0] decimal_total [of s 0]
    by (auto simp add: BN_ofDecimal_def unsignedPart_def split: if_splits)
  then show ?thesis using assms by (auto simp add: BigNumber_from_def toHex_toString16)
qed

lemma BigNumber_from_writtenLowerCase:
  assumes "writtenLowerCase x"
  shows "\<exists>n. BigNumber_from x = Some (BigNumber (canonicalHex n)) \<and> toBN x = Some n"
proof -
  have "\<exists>n. BigNumber_from x = Some (BigNumber (canonicalHex n))"
  proof (cases x)
    case JsUndefined
    then show ?thesis using assms by (simp add: writtenLowerCase_def)
  next
    case (JsNumber n)
    then show ?thesis using assms
      by (auto simp add: writtenLowerCase_def BigNumber_from_def toHex_toString16)
  next
    case (JsString s)
    show ?thesis
    proof (cases "isHexNumberString s")
      case True
      then have "\<not> isDecimalString s"
        using digits_not_hex [of "unsignedPart s"]
        by (auto simp add: isHexNumberString_def isDecimalString_def)
      then show ?thesis using assms JsString BigNumber_from_lowerHex [of s]
        by (simp add: writtenLowerCase_def)
    next
      case False
      moreover have "isLowerHexNumberString s \<Longrightarrow> isHexNumberString s"
        by (auto simp add: isLowerHexNumberString_def isHexNumberString_def list_all_iff
              isHexDigit_def)
      ultimately show ?thesis using assms JsString BigNumber_from_decimal [of s]
        by (auto simp add: writtenLowerCase_def)
    qed
  next
    case (JsBigNumber b)
    then show ?thesis using assms
      by (cases b) (auto simp add: writtenLowerCase_def split: option.splits)
  qed
  then obtain n where n: "BigNumber_from x = Some (BigNumber (canonicalHex n))" by auto
  then have "toBN x = Some n" using toBN_of_from [OF n] toBN_canonical [of n] by simp
  with n show ?thesis by auto
qed

text \<open>
  What it makes of any hexadecimal string: the canonical string of the integer once the
  letters are put in lower case. A string with the prefix \<open>0X\<close> is stored with a second
  prefix and denotes no integer.
\<close>

lemma char_of_nat: "(of_char c :: nat) = k \<Longrightarrow> char_of k = c"
  by auto

lemma lower_letters:
  "char_of (97 :: nat) = CHR ''a''" "char_of (98 :: nat) = CHR ''b''"
  "char_of (99 :: nat) = CHR ''c''" "char_of (100 :: nat) = CHR ''d''"
  "char_of (101 :: nat) = CHR ''e''" "char_of (102 :: nat) = CHR ''f''"
  by (rule char_of_nat, simp)+

lemma toLowerCase_Cons: "toLowerCase (c # d # cs) = toLowerCase [c] @ toLowerCase (d # cs)"
  by (simp add: toLowerCase_def)

lemma toLowerCase_zero: "toLowerCase (CHR ''0'' # cs) = CHR ''0'' # toLowerCase cs"
  by (simp add: toLowerCase_def)

lemma toLowerCase_append: "toLowerCase (xs @ ys) = toLowerCase xs @ toLowerCase ys"
  by (simp add: toLowerCase_def)

lemma length_toLowerCase [simp]: "length (toLowerCase s) = length s"
  by (simp add: toLowerCase_def)

lemma toLowerCase_Nil [simp]: "toLowerCase [] = []"
  by (simp add: toLowerCase_def)

lemma toLowerCase_hexDigit: "d < 16 \<Longrightarrow> toLowerCase [hexDigit d] = [hexDigit d]"
proof -
  assume "d < 16"
  then have "d = 0 \<or> d = 1 \<or> d = 2 \<or> d = 3 \<or> d = 4 \<or> d = 5 \<or> d = 6 \<or> d = 7 \<or> d = 8
      \<or> d = 9 \<or> d = 10 \<or> d = 11 \<or> d = 12 \<or> d = 13 \<or> d = 14 \<or> d = 15" by arith
  then show ?thesis
    by (elim disjE) (simp_all add: hexDigit_def toLowerCase_def)
qed

lemma toLowerCase_hexOfNat: "toLowerCase (hexOfNat k) = hexOfNat k"
proof (induction k rule: hexOfNat.induct)
  case (1 n)
  show ?case
  proof (cases "n < 16")
    case True
    then show ?thesis by (simp add: hexOfNat.simps [of n] toLowerCase_hexDigit)
  next
    case False
    then have "toLowerCase (hexOfNat (n div 16)) = hexOfNat (n div 16)" using 1 by simp
    then show ?thesis using False
      by (simp add: hexOfNat.simps [of n] toLowerCase_append toLowerCase_hexDigit)
  qed
qed

lemma toLowerCase_canonicalHex: "toLowerCase (canonicalHex n) = canonicalHex n"
proof -
  have "toLowerCase (evenLength (hexOfNat k)) = evenLength (hexOfNat k)" for k
    using toLowerCase_hexOfNat [of k]
    by (simp add: evenLength_def toLowerCase_zero)
  moreover have "toLowerCase ''-0x'' = ''-0x''" "toLowerCase ''0x'' = ''0x''"
    by (simp_all add: toLowerCase_def)
  ultimately show ?thesis
    by (simp add: canonicalHex_def toLowerCase_append del: append.simps)
qed

lemma hexDigit_lower:
  assumes "isHexDigit c"
  shows "\<exists>d<16. digitValue 16 c = Some d \<and> toLowerCase [c] = [hexDigit d]
           \<and> (d = 0 \<longrightarrow> c = CHR ''0'')"
proof -
  define k where "k = (of_char c :: nat)"
  have inj: "\<And>x. k = of_char x \<Longrightarrow> c = x" unfolding k_def by simp
  from assms have "k = 48 \<or> k = 49 \<or> k = 50 \<or> k = 51 \<or> k = 52 \<or> k = 53
      \<or> k = 54 \<or> k = 55 \<or> k = 56 \<or> k = 57 \<or> k = 97 \<or> k = 98
      \<or> k = 99 \<or> k = 100 \<or> k = 101 \<or> k = 102 \<or> k = 65 \<or> k = 66
      \<or> k = 67 \<or> k = 68 \<or> k = 69 \<or> k = 70"
    unfolding isHexDigit_def isDigit_def isLowerHexLetter_def isUpperHexLetter_def
      k_def [symmetric] by arith
  then show ?thesis
  proof (elim disjE)
    assume "k = 48"
    then have "c = CHR ''0''" by (intro inj) simp
    then show ?thesis
      by (intro exI [of _ 0])
         (simp add: hexDigit_def digitValue_def toLowerCase_def lower_letters)
  next
    assume "k = 49"
    then have "c = CHR ''1''" by (intro inj) simp
    then show ?thesis
      by (intro exI [of _ 1])
         (simp add: hexDigit_def digitValue_def toLowerCase_def lower_letters)
  next
    assume "k = 50"
    then have "c = CHR ''2''" by (intro inj) simp
    then show ?thesis
      by (intro exI [of _ 2])
         (simp add: hexDigit_def digitValue_def toLowerCase_def lower_letters)
  next
    assume "k = 51"
    then have "c = CHR ''3''" by (intro inj) simp
    then show ?thesis
      by (intro exI [of _ 3])
         (simp add: hexDigit_def digitValue_def toLowerCase_def lower_letters)
  next
    assume "k = 52"
    then have "c = CHR ''4''" by (intro inj) simp
    then show ?thesis
      by (intro exI [of _ 4])
         (simp add: hexDigit_def digitValue_def toLowerCase_def lower_letters)
  next
    assume "k = 53"
    then have "c = CHR ''5''" by (intro inj) simp
    then show ?thesis
      by (intro exI [of _ 5])
         (simp add: hexDigit_def digitValue_def toLowerCase_def lower_letters)
  next
    assume "k = 54"
    then have "c = CHR ''6''" by (intro inj) simp
    then show ?thesis
      by (intro exI [of _ 6])
         (simp add: hexDigit_def digitValue_def toLowerCase_def lower_letters)
  next
    assume "k = 55"
    then have "c = CHR ''7''" by (intro inj) simp
    then show ?thesis
      by (intro exI [of _ 7])
         (simp add: hexDigit_def digitValue_def toLowerCase_def lower_letters)
  next
    assume "k = 56"
    then have "c = CHR ''8''" by (intro inj) simp
    then show ?thesis
      by (intro exI [of _ 8])
         (simp add: hexDigit_def digitValue_def toLowerCase_def lower_letters)
  next
    assume "k = 57"
    then have "c = CHR ''9''" by (intro inj) simp
    then show ?thesis
      by (intro exI [of _ 9])
         (simp add: hexDigit_def digitValue_def toLowerCase_def lower_letters)
  next
    assume "k = 97"
    then have "c = CHR ''a''" by (intro inj) simp
    then show ?thesis
      by (intro exI [of _ 10])
         (simp add: hexDigit_def digitValue_def toLowerCase_def lower_letters)
  next
    assume "k = 98"
    then have "c = CHR ''b''" by (intro inj) simp
    then show ?thesis
      by (intro exI [of _ 11])
         (simp add: hexDigit_def digitValue_def toLowerCase_def lower_letters)
  next
    assume "k = 99"
    then have "c = CHR ''c''" by (intro inj) simp
    then show ?thesis
      by (intro exI [of _ 12])
         (simp add: hexDigit_def digitValue_def toLowerCase_def lower_letters)
  next
    assume "k = 100"
    then have "c = CHR ''d''" by (intro inj) simp
    then show ?thesis
      by (intro exI [of _ 13])
         (simp add: hexDigit_def digitValue_def toLowerCase_def lower_letters)
  next
    assume "k = 101"
    then have "c = CHR ''e''" by (intro inj) simp
    then show ?thesis
      by (intro exI [of _ 14])
         (simp add: hexDigit_def digitValue_def toLowerCase_def lower_letters)
  next
    assume "k = 102"
    then have "c = CHR ''f''" by (intro inj) simp
    then show ?thesis
      by (intro exI [of _ 15])
         (simp add: hexDigit_def digitValue_def toLowerCase_def lower_letters)
  next
    assume "k = 65"
    then have "c = CHR ''A''" by (intro inj) simp
    then show ?thesis
      by (intro exI [of _ 10])
         (simp add: hexDigit_def digitValue_def toLowerCase_def lower_letters)
  next
    assume "k = 66"
    then have "c = CHR ''B''" by (intro inj) simp
    then show ?thesis
      by (intro exI [of _ 11])
         (simp add: hexDigit_def digitValue_def toLowerCase_def lower_letters)
  next
    assume "k = 67"
    then have "c = CHR ''C''" by (intro inj) simp
    then show ?thesis
      by (intro exI [of _ 12])
         (simp add: hexDigit_def digitValue_def toLowerCase_def lower_letters)
  next
    assume "k = 68"
    then have "c = CHR ''D''" by (intro inj) simp
    then show ?thesis
      by (intro exI [of _ 13])
         (simp add: hexDigit_def digitValue_def toLowerCase_def lower_letters)
  next
    assume "k = 69"
    then have "c = CHR ''E''" by (intro inj) simp
    then show ?thesis
      by (intro exI [of _ 14])
         (simp add: hexDigit_def digitValue_def toLowerCase_def lower_letters)
  next
    assume "k = 70"
    then have "c = CHR ''F''" by (intro inj) simp
    then show ?thesis
      by (intro exI [of _ 15])
         (simp add: hexDigit_def digitValue_def toLowerCase_def lower_letters)
  qed
qed

lemma hexDigits_value:
  assumes "ds \<noteq> []"
  shows "list_all isHexDigit ds \<Longrightarrow> hd ds \<noteq> CHR ''0''
         \<Longrightarrow> \<exists>k>0. natOfDigits 16 ds 0 = Some k \<and> hexOfNat k = toLowerCase ds"
  using assms
proof (induction ds rule: rev_nonempty_induct)
  case (single x)
  then obtain d where d: "d < 16" "digitValue 16 x = Some d"
      "toLowerCase [x] = [hexDigit d]" "d = 0 \<longrightarrow> x = CHR ''0''"
    using hexDigit_lower [of x] by auto
  have "d \<noteq> 0" using d(4) single(2) by auto
  then show ?case using d by (intro exI [of _ d]) (simp add: hexOfNat.simps [of d])
next
  case (snoc x xs)
  then obtain k where k: "0 < k" "natOfDigits 16 xs 0 = Some k" "hexOfNat k = toLowerCase xs"
    by auto
  from snoc(3) obtain d where d: "d < 16" "digitValue 16 x = Some d"
      "toLowerCase [x] = [hexDigit d]"
    using hexDigit_lower [of x] by auto
  have "hexOfNat (16 * k + d) = hexOfNat k @ [hexDigit d]"
    using k(1) d(1) by (subst hexOfNat.simps) simp
  then show ?case using k d
    by (intro exI [of _ "16 * k + d"]) (simp add: natOfDigits_append toLowerCase_append)
qed

lemma trimZeroPairs_hexDigits:
  "even (length es) \<Longrightarrow> es \<noteq> [] \<Longrightarrow> list_all isHexDigit es
   \<Longrightarrow> \<exists>k. natOfDigits 16 es 0 = Some k
         \<and> toLowerCase (trimZeroPairs (''0x'' @ es)) = ''0x'' @ evenLength (hexOfNat k)
         \<and> take 2 (trimZeroPairs (''0x'' @ es)) = ''0x''
         \<and> natOfDigits 16 (drop 2 (trimZeroPairs (''0x'' @ es))) 0 = Some k
         \<and> (trimZeroPairs (''0x'' @ es) = ''0x00'' \<longleftrightarrow> k = 0)"
proof (induction es rule: length_induct)
  case (1 es)
  from 1(2,3) obtain a b rest where es: "es = a # b # rest"
    by (cases es; cases "tl es") auto
  have x: "toLowerCase ''0x'' = ''0x''" by (simp add: toLowerCase_def)
  show ?case
  proof (cases "a = CHR ''0''")
    case False
    then have id: "trimZeroPairs (''0x'' @ es) = ''0x'' @ es"
      by (simp add: es trimZeroPairs_id)
    from hexDigits_value [of es] 1(3,4) False es obtain k where
      k: "0 < k" "natOfDigits 16 es 0 = Some k" "hexOfNat k = toLowerCase es" by auto
    have "evenLength (hexOfNat k) = toLowerCase es"
      using k(3) 1(2) by (simp add: evenLength_def)
    then have "toLowerCase (''0x'' @ es) = ''0x'' @ evenLength (hexOfNat k)"
      using x by (simp add: toLowerCase_append del: append.simps)
    moreover have "''0x'' @ es \<noteq> ''0x00''" using False es by simp
    ultimately show ?thesis using id k by (intro exI [of _ k]) simp
  next
    case a: True
    show ?thesis
    proof (cases "b = CHR ''0''")
      case False
      then have id: "trimZeroPairs (''0x'' @ es) = ''0x'' @ es"
        by (simp add: es trimZeroPairs_id)
      from hexDigits_value [of "b # rest"] 1(4) False es obtain k where
        k: "0 < k" "natOfDigits 16 (b # rest) 0 = Some k"
          "hexOfNat k = toLowerCase (b # rest)" by auto
      have val: "natOfDigits 16 es 0 = natOfDigits 16 (b # rest) 0"
        by (simp add: es a digitValue_def)
      have "odd (length (hexOfNat k))" using k(3) 1(2) es by simp
      then have "evenLength (hexOfNat k) = CHR ''0'' # toLowerCase (b # rest)"
        using k(3) by (simp add: evenLength_def)
      then have "evenLength (hexOfNat k) = toLowerCase es"
        by (simp add: es a toLowerCase_zero)
      then have "toLowerCase (''0x'' @ es) = ''0x'' @ evenLength (hexOfNat k)"
        using x by (simp add: toLowerCase_append del: append.simps)
      moreover have "''0x'' @ es \<noteq> ''0x00''" using False es by simp
      ultimately show ?thesis using id k val by (intro exI [of _ k]) simp
    next
      case b: True
      have val: "natOfDigits 16 es 0 = natOfDigits 16 rest 0"
        by (simp add: es a b digitValue_def)
      show ?thesis
      proof (cases "rest = []")
        case True
        then have "trimZeroPairs (''0x'' @ es) = ''0x00''"
          by (simp add: es a b trimZeroPairs_id)
        moreover have "natOfDigits 16 es 0 = Some 0" using val True by simp
        moreover have "toLowerCase ''0x00'' = ''0x00''" by (simp add: toLowerCase_def)
        ultimately show ?thesis
          by (intro exI [of _ 0]) (simp add: hexOfNat_zero evenLength_def digitValue_def)
      next
        case False
        have step: "trimZeroPairs (''0x'' @ es) = trimZeroPairs (''0x'' @ rest)"
          using False by (subst trimZeroPairs.simps) (simp add: es a b)
        have "\<exists>k. natOfDigits 16 rest 0 = Some k
           \<and> toLowerCase (trimZeroPairs (''0x'' @ rest)) = ''0x'' @ evenLength (hexOfNat k)
           \<and> take 2 (trimZeroPairs (''0x'' @ rest)) = ''0x''
           \<and> natOfDigits 16 (drop 2 (trimZeroPairs (''0x'' @ rest))) 0 = Some k
           \<and> (trimZeroPairs (''0x'' @ rest) = ''0x00'' \<longleftrightarrow> k = 0)"
          using 1(1) [rule_format, of rest] 1(2,4) False by (simp add: es)
        then show ?thesis using step val by simp
      qed
    qed
  qed
qed

lemma toHexUnsigned_hexDigits:
  assumes "ds \<noteq> []" and "list_all isHexDigit ds"
  shows "\<exists>k. toLowerCase (toHexUnsigned (''0x'' @ ds)) = ''0x'' @ evenLength (hexOfNat k)
           \<and> take 2 (toHexUnsigned (''0x'' @ ds)) = ''0x''
           \<and> natOfDigits 16 (drop 2 (toHexUnsigned (''0x'' @ ds))) 0 = Some k
           \<and> (toHexUnsigned (''0x'' @ ds) = ''0x00'' \<longleftrightarrow> k = 0)"
proof (cases "odd (length ds)")
  case True
  have zero: "isHexDigit CHR ''0''" by (simp add: isHexDigit_def isDigit_def)
  have "toHexUnsigned (''0x'' @ ds) = trimZeroPairs (''0x'' @ (CHR ''0'' # ds))"
    using True assms(1) by (simp add: toHexUnsigned_def)
  then show ?thesis
    using trimZeroPairs_hexDigits [of "CHR ''0'' # ds"] True assms zero by auto
next
  case False
  have "toHexUnsigned (''0x'' @ ds) = trimZeroPairs (''0x'' @ ds)"
    using False assms(1) by (simp add: toHexUnsigned_def)
  then show ?thesis
    using trimZeroPairs_hexDigits [of ds] False assms by auto
qed

lemma BigNumber_from_hexString:
  assumes "isHexNumberString s" and "take 2 (unsignedPart s) = ''0x''"
  shows "\<exists>b n. BigNumber_from (JsString s) = Some b \<and> toBN (JsString s) = Some n
           \<and> toLowerCase (toHexString b) = canonicalHex n"
proof -
  define ds where "ds = drop 2 (unsignedPart s)"
  from assms have u: "unsignedPart s = ''0x'' @ ds" and ne: "ds \<noteq> []"
    and hex: "list_all isHexDigit ds"
    unfolding isHexNumberString_def ds_def
    by (metis append_take_drop_id, simp, simp)
  define h where "h = toHexUnsigned (''0x'' @ ds)"
  from toHexUnsigned_hexDigits [OF ne hex] obtain k where
      low: "toLowerCase h = ''0x'' @ evenLength (hexOfNat k)"
    and pre: "take 2 h = ''0x''"
    and val: "natOfDigits 16 (drop 2 h) 0 = Some k"
    and zer: "h = ''0x00'' \<longleftrightarrow> k = 0"
    unfolding h_def by blast
  have nm: "take 1 h \<noteq> ''-''" using pre by (cases h) auto
  have minus: "toLowerCase (''-'' @ h) = ''-'' @ toLowerCase h"
    by (simp add: toLowerCase_def)
  show ?thesis
  proof (cases "take 1 s = ''-''")
    case False
    then have "s = ''0x'' @ ds" using u by (simp add: unsignedPart_def)
    then have "toHex s = Some h" by (simp add: toHex_def h_def)
    then have b: "BigNumber_from (JsString s) = Some (BigNumber h)"
      using assms(1) by (simp add: BigNumber_from_def)
    moreover have "toBN (JsString s) = Some (int k)"
      using b nm val by (simp add: toBN_def)
    moreover have "toLowerCase h = canonicalHex (int k)"
      using low by (simp add: canonicalHex_def)
    ultimately show ?thesis by auto
  next
    case True
    then have s: "s = ''-'' @ (''0x'' @ ds)"
      using u by (cases s) (simp_all add: unsignedPart_def)
    show ?thesis
    proof (cases "k = 0")
      case True
      then have h: "h = ''0x00''" using zer by simp
      then have "toHex s = Some ''0x00''" using s by (simp add: toHex_def h_def)
      then have b: "BigNumber_from (JsString s) = Some (BigNumber ''0x00'')"
        using assms(1) by (simp add: BigNumber_from_def)
      moreover have "toBN (JsString s) = Some 0"
        using b by (simp add: toBN_def digitValue_def)
      moreover have "toLowerCase ''0x00'' = canonicalHex 0"
        by (simp add: canonicalHex_def hexOfNat_zero evenLength_def toLowerCase_def)
      ultimately show ?thesis by auto
    next
      case False
      then have "h \<noteq> ''0x00''" using zer by simp
      then have "toHex s = Some (''-'' @ h)" using s by (simp add: toHex_def h_def)
      then have b: "BigNumber_from (JsString s) = Some (BigNumber (''-'' @ h))"
        using assms(1) by (simp add: BigNumber_from_def)
      moreover have "drop 3 (''-'' @ h) = drop 2 h" by simp
      then have "toBN (JsString s) = Some (- int k)"
        using b val by (simp add: toBN_def)
      moreover have "toLowerCase (''-'' @ h) = canonicalHex (- int k)"
        using low False minus by (simp add: canonicalHex_def)
      ultimately show ?thesis by auto
    qed
  qed
qed

lemma toHexUnsigned_upperPrefix:
  "toHexUnsigned (CHR ''0'' # CHR ''X'' # ds)
     = (if odd (length ds) then ''0xX'' @ ds else ''0x0X'' @ ds)"
proof (cases "odd (length ds)")
  case True
  have "trimZeroPairs (''0x00X'' @ ds) = trimZeroPairs (''0xX'' @ ds)"
    by (subst trimZeroPairs.simps) simp
  also have "\<dots> = ''0xX'' @ ds" by (simp add: trimZeroPairs_id)
  finally show ?thesis using True by (simp add: toHexUnsigned_def)
next
  case False
  have "trimZeroPairs (''0x0X'' @ ds) = ''0x0X'' @ ds" by (simp add: trimZeroPairs_id)
  then show ?thesis using False by (simp add: toHexUnsigned_def)
qed

lemma toBN_upperPrefix:
  assumes "isHexNumberString s" and "take 2 (unsignedPart s) = ''0X''"
  shows "toBN (JsString s) = None"
proof -
  define ds where "ds = drop 2 (unsignedPart s)"
  from assms have u: "unsignedPart s = ''0X'' @ ds"
    unfolding ds_def by (metis append_take_drop_id)
  show ?thesis
  proof (cases "take 1 s = ''-''")
    case False
    then have "s = ''0X'' @ ds" using u by (simp add: unsignedPart_def)
    then show ?thesis using assms(1)
      by (simp add: toBN_def BigNumber_from_def toHex_def toHexUnsigned_upperPrefix
            digitValue_def)
  next
    case True
    then have "s = ''-'' @ (''0X'' @ ds)"
      using u by (cases s) (simp_all add: unsignedPart_def)
    then show ?thesis using assms(1)
      by (simp add: toBN_def BigNumber_from_def toHex_def toHexUnsigned_upperPrefix
            digitValue_def Let_def)
  qed
qed

lemma BigNumber_from_denotes_string:
  assumes "toBN (JsString s) = Some n"
  shows "\<exists>b. BigNumber_from (JsString s) = Some b
           \<and> toLowerCase (toHexString b) = canonicalHex n"
proof (cases "isHexNumberString s")
  case True
  then have "take 2 (unsignedPart s) = ''0x''"
    using toBN_upperPrefix [of s] assms by (auto simp add: isHexNumberString_def)
  from BigNumber_from_hexString [OF True this] assms show ?thesis by auto
next
  case False
  then have dec: "isDecimalString s"
    using assms by (auto simp add: toBN_def BigNumber_from_def split: if_splits)
  from BigNumber_from_decimal [OF dec False] obtain m where
    m: "BigNumber_from (JsString s) = Some (BigNumber (canonicalHex m))" by auto
  then have "toBN (JsString s) = Some m"
    using toBN_of_from [OF m] toBN_canonical [of m] by simp
  with assms m show ?thesis by (simp add: toLowerCase_canonicalHex)
qed

lemma BigNumber_from_denotes:
  assumes "denotes x n"
  shows "\<exists>b. BigNumber_from x = Some b \<and> toLowerCase (toHexString b) = canonicalHex n"
proof (cases x)
  case JsUndefined
  then show ?thesis using assms by (simp add: denotes_def toBN_def BigNumber_from_def)
next
  case (JsNumber m)
  from assms have t: "toBN (JsNumber m) = Some n" by (simp add: denotes_def JsNumber)
  then have b: "BigNumber_from (JsNumber m) = Some (BigNumber (canonicalHex m))"
    by (auto simp add: toBN_def BigNumber_from_def toHex_toString16 split: if_splits)
  then have "toBN (JsNumber m) = Some m"
    using toBN_of_from [OF b] toBN_canonical [of m] by simp
  with t b JsNumber show ?thesis by (simp add: toLowerCase_canonicalHex)
next
  case (JsString s)
  then show ?thesis using assms BigNumber_from_denotes_string [of s n]
    by (simp add: denotes_def)
next
  case (JsBigNumber b)
  from assms have t: "toBN (JsBigNumber b) = Some n"
    and f: "BigNumber_from (JsString (toHexString b)) = Some b"
    by (simp_all add: denotes_def JsBigNumber)
  have "toBN (JsString (toHexString b)) = Some n"
    using toBN_of_from [OF f] t by simp
  from BigNumber_from_denotes_string [OF this] f JsBigNumber show ?thesis by simp
qed

lemma normalized_field:
  assumes "denotes x n"
  shows "\<exists>h. BigNumber_from x = Some (BigNumber h) \<and> toLowerCase h = canonicalHex n
           \<and> (writtenLowerCase x \<longrightarrow> h = canonicalHex n)"
proof -
  from BigNumber_from_denotes [OF assms] obtain b where
    b: "BigNumber_from x = Some b" "toLowerCase (toHexString b) = canonicalHex n" by auto
  have "toHexString b = canonicalHex n" if "writtenLowerCase x"
  proof -
    from BigNumber_from_writtenLowerCase [OF that] obtain m where
      "BigNumber_from x = Some (BigNumber (canonicalHex m))" "toBN x = Some m" by auto
    with b(1) assms show ?thesis by (auto simp add: denotes_def)
  qed
  with b show ?thesis by (cases b) auto
qed

lemma normalizeUserOp_denotes:
  assumes "list_all2 denotes (numericFields p) ns"
  shows "\<exists>F hs. normalizeUserOp p = Inr F
           \<and> numericFields F = map JsString hs
           \<and> map toLowerCase hs = map canonicalHex ns
           \<and> (list_all writtenLowerCase (numericFields p) \<longrightarrow> hs = map canonicalHex ns)"
proof -
  from assms obtain n c v pv mf mp where ns: "ns = [n, c, v, pv, mf, mp]"
    and d: "denotes (nonce p) n" "denotes (callGasLimit p) c"
      "denotes (verificationGasLimit p) v" "denotes (preVerificationGas p) pv"
      "denotes (maxFeePerGas p) mf" "denotes (maxPriorityFeePerGas p) mp"
    by (auto simp add: numericFields_def list_all2_Cons1)
  obtain h1 where h1: "BigNumber_from (nonce p) = Some (BigNumber h1)"
      "toLowerCase h1 = canonicalHex n" "writtenLowerCase (nonce p) \<longrightarrow> h1 = canonicalHex n"
    using normalized_field [OF d(1)] by auto
  obtain h2 where h2: "BigNumber_from (callGasLimit p) = Some (BigNumber h2)"
      "toLowerCase h2 = canonicalHex c"
      "writtenLowerCase (callGasLimit p) \<longrightarrow> h2 = canonicalHex c"
    using normalized_field [OF d(2)] by auto
  obtain h3 where h3: "BigNumber_from (verificationGasLimit p) = Some (BigNumber h3)"
      "toLowerCase h3 = canonicalHex v"
      "writtenLowerCase (verificationGasLimit p) \<longrightarrow> h3 = canonicalHex v"
    using normalized_field [OF d(3)] by auto
  obtain h4 where h4: "BigNumber_from (preVerificationGas p) = Some (BigNumber h4)"
      "toLowerCase h4 = canonicalHex pv"
      "writtenLowerCase (preVerificationGas p) \<longrightarrow> h4 = canonicalHex pv"
    using normalized_field [OF d(4)] by auto
  obtain h5 where h5: "BigNumber_from (maxFeePerGas p) = Some (BigNumber h5)"
      "toLowerCase h5 = canonicalHex mf"
      "writtenLowerCase (maxFeePerGas p) \<longrightarrow> h5 = canonicalHex mf"
    using normalized_field [OF d(5)] by auto
  obtain h6 where h6: "BigNumber_from (maxPriorityFeePerGas p) = Some (BigNumber h6)"
      "toLowerCase h6 = canonicalHex mp"
      "writtenLowerCase (maxPriorityFeePerGas p) \<longrightarrow> h6 = canonicalHex mp"
    using normalized_field [OF d(6)] by auto
  show ?thesis
    using normalizeUserOp_success [OF h1(1) h2(1) h3(1) h4(1) h5(1) h6(1)]
      h1(2,3) h2(2,3) h3(2,3) h4(2,3) h5(2,3) h6(2,3)
    by (intro exI [of _ "p\<lparr> nonce := JsString h1, callGasLimit := JsString h2,
                  verificationGasLimit := JsString h3, preVerificationGas := JsString h4,
                  maxFeePerGas := JsString h5, maxPriorityFeePerGas := JsString h6 \<rparr>"]
          exI [of _ "[h1, h2, h3, h4, h5, h6]"])
       (simp add: numericFields_def ns)
qed

text \<open>The run of \<open>createUnsignedUserOp\<close> for the second keyring.\<close>

lemma demo_keyring_cc: "map_of (keyrings demoServiceCC) ''0xcc'' = Some demoKeyringCC"
  by (simp add: demoServiceCC_def)

lemma demo_provisional_cc:
  "createUnsignedUserOpWithContext demoAccounts demoKeyringCC demoDetails None
     = Some (demoProvisional demoKeyringCC demoDetails)"
  by (simp add: demoAccounts_def)

lemma demo_normalized_cc:
  "normalizeUserOp (demoProvisional demoKeyringCC demoDetails) = Inr demoNormalizedCC"
  by (simp add: normalizeUserOp_def demoProvisional_def demoAddress_def demoKeyringCC_def
        demoDetails_def demoNormalizedCC_def demoNormalized_def ethers_defs)

lemma demo_bundler_cc:
  "bundler demoServiceCC = Some (HttpRpcClient ''http://bundler'' ''0xentry'' 1)"
  by (simp add: demoServiceCC_def demoService_def)

lemma demo_signed_cc:
  "signUserOp demoAccounts demoKeyringCC demoNormalizedCC
     = Some (demoNormalizedCC\<lparr> signature := ''signed-by-cc'' \<rparr>)"
  by (simp add: demoAccounts_def demoKeyringCC_def)

text \<open>
  The provisional operations of the two keyrings write the same pre-verification gas,
  46856, as \<open>0xB708\<close> and as \<open>0xb708\<close>. The operations that \<open>createUnsignedUserOp\<close> hands
  to \<open>signUserOp\<close> and sends to the bundler carry the two strings as they were written:
  normalization keeps the case of the letters of a hexadecimal string, so the encodings
  of one integer differ.
\<close>

theorem normalization_keeps_letter_case_counterexample:
  "preVerificationGas (demoProvisional demoKeyring demoDetails) = JsString ''0xB708''
   \<and> preVerificationGas (demoProvisional demoKeyringCC demoDetails) = JsString ''0xb708''
   \<and> toBN (JsString ''0xB708'') = Some 46856
   \<and> toBN (JsString ''0xb708'') = Some 46856
   \<and> calls (snd (createUnsignedUserOp demoAccounts demoNetwork ''0xaa'' demoTransaction
                    None demoService))
        = [SignUserOp demoNormalized,
           EstimateUserOpGas (demoNormalized\<lparr> signature := ''signed-by-aa'' \<rparr>)]
   \<and> calls (snd (createUnsignedUserOp demoAccounts demoNetwork ''0xcc'' demoTransaction
                    None demoServiceCC))
        = [SignUserOp demoNormalizedCC,
           EstimateUserOpGas (demoNormalizedCC\<lparr> signature := ''signed-by-cc'' \<rparr>)]
   \<and> preVerificationGas demoNormalized = JsString ''0xB708''
   \<and> preVerificationGas demoNormalizedCC = JsString ''0xb708''"
proof -
  have "toBN (JsString ''0xB708'') = Some 46856" by (simp add: ethers_defs)
  moreover have "toBN (JsString ''0xb708'') = Some 46856" by (simp add: ethers_defs)
  moreover have "calls (snd (createUnsignedUserOp demoAccounts demoNetwork ''0xaa''
                               demoTransaction None demoService))
        = [SignUserOp demoNormalized,
           EstimateUserOpGas (demoNormalized\<lparr> signature := ''signed-by-aa'' \<rparr>)]"
    using createUnsignedUserOp_trace
            [OF demo_keyring demo_details demo_provisional demo_normalized demo_bundler,
             of demoNetwork]
          demo_signed
    by (simp add: demoService_def)
  moreover have "calls (snd (createUnsignedUserOp demoAccounts demoNetwork ''0xcc''
                               demoTransaction None demoServiceCC))
        = [SignUserOp demoNormalizedCC,
           EstimateUserOpGas (demoNormalizedCC\<lparr> signature := ''signed-by-cc'' \<rparr>)]"
    using createUnsignedUserOp_trace
            [OF demo_keyring_cc demo_details demo_provisional_cc demo_normalized_cc
                demo_bundler_cc, of demoNetwork]
          demo_signed_cc
    by (simp add: demoServiceCC_def demoService_def)
  ultimately show ?thesis
    by (simp add: demoProvisional_def demoKeyring_def demoKeyringCC_def demoNormalized_def
          demoNormalizedCC_def)
qed

text \<open>
  C6, amended. The operation that \<open>createUnsignedUserOp\<close> hands to \<open>signUserOp\<close>, before
  any estimate is requested, is the provisional operation after normalization. If its six
  numeric fields denote the integers \<open>ns\<close>, they are normalized to strings \<open>hs1\<close> that are
  the canonical hexadecimal strings of \<open>ns\<close> up to the case of the letters; and any other
  operation \<open>p2\<close> whose six fields denote the same integers normalizes to strings \<open>hs2\<close>
  that are the same up to the case of the letters. The strings are the canonical ones
  themselves, hence identical, where every field is a number, a decimal string, a
  hexadecimal string in lower case or a \<open>BigNumber\<close> holding a canonical string.
\<close>

theorem numeric_fields_normalized_up_to_case:
  assumes keyring: "map_of (keyrings s) addr = Some keyring"
    and details: "transactionDetails transaction = Inr details"
    and provisional: "createUnsignedUserOpWithContext A keyring details context = Some p1"
    and b: "bundler s = Some b"
    and d1: "list_all2 denotes (numericFields p1) ns"
    and d2: "list_all2 denotes (numericFields p2) ns"
  shows "\<exists>F1 F2 hs1 hs2.
           normalizeUserOp p1 = Inr F1
         \<and> normalizeUserOp p2 = Inr F2
         \<and> take (Suc (length (calls s)))
              (calls (snd (createUnsignedUserOp A N addr transaction context s)))
             = calls s @ [SignUserOp F1]
         \<and> numericFields F1 = map JsString hs1
         \<and> numericFields F2 = map JsString hs2
         \<and> map toLowerCase hs1 = map canonicalHex ns
         \<and> map toLowerCase hs2 = map canonicalHex ns
         \<and> (list_all writtenLowerCase (numericFields p1) \<longrightarrow> hs1 = map canonicalHex ns)
         \<and> (list_all writtenLowerCase (numericFields p2) \<longrightarrow> hs2 = map canonicalHex ns)"
proof -
  obtain F1 hs1 where F1: "normalizeUserOp p1 = Inr F1"
      "numericFields F1 = map JsString hs1" "map toLowerCase hs1 = map canonicalHex ns"
      "list_all writtenLowerCase (numericFields p1) \<longrightarrow> hs1 = map canonicalHex ns"
    using normalizeUserOp_denotes [OF d1] by auto
  obtain F2 hs2 where F2: "normalizeUserOp p2 = Inr F2"
      "numericFields F2 = map JsString hs2" "map toLowerCase hs2 = map canonicalHex ns"
      "list_all writtenLowerCase (numericFields p2) \<longrightarrow> hs2 = map canonicalHex ns"
    using normalizeUserOp_denotes [OF d2] by auto
  have tr: "take (Suc (length (calls s)))
              (calls (snd (createUnsignedUserOp A N addr transaction context s)))
             = calls s @ [SignUserOp F1]"
    using createUnsignedUserOp_trace [OF keyring details provisional F1(1) b, of N]
    by (cases "signUserOp A keyring F1") simp_all
  show ?thesis using F1 F2 tr by blast
qed

text \<open>
  The provisional operation of the first keyring, with its \<open>0xB708\<close>, and an operation
  that writes the same six integers otherwise and without upper-case letters.
\<close>

theorem numeric_fields_normalized_up_to_case_witness:
  "list_all2 denotes (numericFields (demoProvisional demoKeyring demoDetails))
      [7, 35000, 100000, 46856, 15258, 1000]
   \<and> list_all2 denotes (numericFields demoOtherProvisional)
      [7, 35000, 100000, 46856, 15258, 1000]
   \<and> list_all writtenLowerCase (numericFields demoOtherProvisional)
   \<and> normalizeUserOp (demoProvisional demoKeyring demoDetails) = Inr demoNormalized
   \<and> take 1 (calls (snd (createUnsignedUserOp demoAccounts demoNetwork ''0xaa''
                            demoTransaction None demoService)))
        = [SignUserOp demoNormalized]
   \<and> numericFields demoNormalized
        = map JsString [''0x07'', ''0x88b8'', ''0x0186a0'', ''0xB708'', ''0x3b9a'', ''0x03e8'']
   \<and> (\<exists>F2. normalizeUserOp demoOtherProvisional = Inr F2
            \<and> numericFields F2
                = map JsString [''0x07'', ''0x88b8'', ''0x0186a0'', ''0xb708'', ''0x3b9a'',
                                ''0x03e8''])
   \<and> map toLowerCase [''0x07'', ''0x88b8'', ''0x0186a0'', ''0xB708'', ''0x3b9a'', ''0x03e8'']
        = map canonicalHex [7, 35000, 100000, 46856, 15258, 1000]"
proof -
  have d1: "list_all2 denotes (numericFields (demoProvisional demoKeyring demoDetails))
      [7, 35000, 100000, 46856, 15258, 1000]"
    by (simp add: numericFields_def demoProvisional_def demoKeyring_def demoDetails_def
          denotes_def ethers_defs)
  have d2: "list_all2 denotes (numericFields demoOtherProvisional)
      [7, 35000, 100000, 46856, 15258, 1000]"
    by (simp add: numericFields_def demoOtherProvisional_def denotes_def ethers_defs)
  have w2: "list_all writtenLowerCase (numericFields demoOtherProvisional)"
    by (simp add: numericFields_def demoOtherProvisional_def
          writtenLowerCase_def isLowerHexNumberString_def canonicalHex_def evenLength_def
          ethers_defs)
  have nf: "numericFields demoNormalized
        = map JsString [''0x07'', ''0x88b8'', ''0x0186a0'', ''0xB708'', ''0x3b9a'', ''0x03e8'']"
    by (simp add: numericFields_def demoNormalized_def)
  have ch: "map canonicalHex [7, 35000, 100000, 46856, 15258, 1000]
        = [''0x07'', ''0x88b8'', ''0x0186a0'', ''0xb708'', ''0x3b9a'', ''0x03e8'']"
    by (simp add: canonicalHex_def evenLength_def hexOfNat.simps hexDigit_def)
  from numeric_fields_normalized_up_to_case
         [OF demo_keyring demo_details demo_provisional demo_bundler d1 d2, of demoNetwork]
  obtain F1 F2 hs1 hs2 where
      r: "normalizeUserOp (demoProvisional demoKeyring demoDetails) = Inr F1"
      "normalizeUserOp demoOtherProvisional = Inr F2"
      "take (Suc (length (calls demoService)))
          (calls (snd (createUnsignedUserOp demoAccounts demoNetwork ''0xaa'' demoTransaction
                         None demoService)))
         = calls demoService @ [SignUserOp F1]"
      "numericFields F1 = map JsString hs1"
      "numericFields F2 = map JsString hs2"
      "map toLowerCase hs1 = map canonicalHex [7, 35000, 100000, 46856, 15258, 1000]"
      "list_all writtenLowerCase (numericFields demoOtherProvisional)
         \<longrightarrow> hs2 = map canonicalHex [7, 35000, 100000, 46856, 15258, 1000]"
    by blast
  have F1: "F1 = demoNormalized" using r(1) demo_normalized by simp
  have "map JsString hs1
          = map JsString [''0x07'', ''0x88b8'', ''0x0186a0'', ''0xB708'', ''0x3b9a'', ''0x03e8'']"
    using r(4) nf F1 by simp
  then have hs1: "hs1 = [''0x07'', ''0x88b8'', ''0x0186a0'', ''0xB708'', ''0x3b9a'', ''0x03e8'']"
    by (rule map_injective) (simp add: inj_on_def)
  have hs2: "hs2 = [''0x07'', ''0x88b8'', ''0x0186a0'', ''0xb708'', ''0x3b9a'', ''0x03e8'']"
    using r(7) w2 ch by simp
  have c0: "calls demoService = []" by (simp add: demoService_def)
  have p1: "take 1 (calls (snd (createUnsignedUserOp demoAccounts demoNetwork ''0xaa''
                            demoTransaction None demoService)))
        = [SignUserOp demoNormalized]"
    using r(3) F1 c0 by simp
  have p2: "\<exists>F2. normalizeUserOp demoOtherProvisional = Inr F2
            \<and> numericFields F2
                = map JsString [''0x07'', ''0x88b8'', ''0x0186a0'', ''0xb708'', ''0x3b9a'',
                                ''0x03e8'']"
    using r(2,5) hs2 by blast
  have p3: "map toLowerCase [''0x07'', ''0x88b8'', ''0x0186a0'', ''0xB708'', ''0x3b9a'', ''0x03e8'']
        = map canonicalHex [7, 35000, 100000, 46856, 15258, 1000]"
    using r(6) hs1 by simp
  from d1 d2 w2 demo_normalized p1 nf p2 p3 show ?thesis by blast
qed

end
